theory Spec2Isabelle
  imports Main "HOL-Library.Sublist" "HOL-Library.Word"
begin

unbundle bit_operations_syntax

section \<open>Go strings and the library functions the code calls on them\<close>

text \<open>
  A Go \<^verbatim>\<open>string\<close> is a sequence of bytes; \<^typ>\<open>string\<close> (a list of 8-bit characters) is
  that sequence, and \<^verbatim>\<open>len(s)\<close> is \<^term>\<open>length s\<close>.

  \<^verbatim>\<open>strings.TrimSpace\<close> removes the leading and the trailing white space of a string,
  where white space is what \<^verbatim>\<open>unicode.IsSpace\<close> accepts on the UTF-8 decoding of the
  bytes: the six ASCII characters tab, line feed, vertical tab, form feed, carriage return
  and space, then U+0085, U+00A0, U+1680, U+2000 to U+200A, U+2028, U+2029, U+202F, U+205F
  and U+3000. \<open>space_tokens\<close> lists the UTF-8 encoding of each of them. A byte sequence
  that is not the shortest encoding of one of these code points decodes to another rune, or
  to the error rune, neither of which is white space.
\<close>

definition space_tokens :: "string list" where
  "space_tokens =
     [[CHR 0x09], [CHR 0x0A], [CHR 0x0B], [CHR 0x0C], [CHR 0x0D], [CHR 0x20],
      [CHR 0xC2, CHR 0x85], [CHR 0xC2, CHR 0xA0],
      [CHR 0xE1, CHR 0x9A, CHR 0x80],
      [CHR 0xE2, CHR 0x80, CHR 0x80], [CHR 0xE2, CHR 0x80, CHR 0x81],
      [CHR 0xE2, CHR 0x80, CHR 0x82], [CHR 0xE2, CHR 0x80, CHR 0x83],
      [CHR 0xE2, CHR 0x80, CHR 0x84], [CHR 0xE2, CHR 0x80, CHR 0x85],
      [CHR 0xE2, CHR 0x80, CHR 0x86], [CHR 0xE2, CHR 0x80, CHR 0x87],
      [CHR 0xE2, CHR 0x80, CHR 0x88], [CHR 0xE2, CHR 0x80, CHR 0x89],
      [CHR 0xE2, CHR 0x80, CHR 0x8A],
      [CHR 0xE2, CHR 0x80, CHR 0xA8], [CHR 0xE2, CHR 0x80, CHR 0xA9],
      [CHR 0xE2, CHR 0x80, CHR 0xAF],
      [CHR 0xE2, CHR 0x81, CHR 0x9F],
      [CHR 0xE3, CHR 0x80, CHR 0x80]]"

text \<open>
  The width in bytes of the white-space rune a string starts with (ends with), 0 when it
  starts (ends) with no such rune.
\<close>

definition leading_space :: "string \<Rightarrow> nat" where
  "leading_space s =
     (case find (\<lambda>t. prefix t s) space_tokens of None \<Rightarrow> 0 | Some t \<Rightarrow> length t)"

definition trailing_space :: "string \<Rightarrow> nat" where
  "trailing_space s =
     (case find (\<lambda>t. suffix t s) space_tokens of None \<Rightarrow> 0 | Some t \<Rightarrow> length t)"

lemma token_nonempty: "t \<in> set space_tokens \<Longrightarrow> t \<noteq> []"
  by (auto simp: space_tokens_def)

lemma leading_space_le: "leading_space s \<le> length s"
  by (auto simp: leading_space_def prefix_length_le split: option.splits dest!: find_Some_iff[THEN iffD1])

lemma leading_space_pos: "0 < leading_space s \<Longrightarrow> s \<noteq> []"
  using leading_space_le[of s] by auto

function TrimLeftSpace :: "string \<Rightarrow> string" where
  "TrimLeftSpace s =
     (if leading_space s = 0 then s else TrimLeftSpace (drop (leading_space s) s))"
  by pat_completeness auto
termination
  by (relation "measure length") (use leading_space_pos in auto)

lemma trailing_space_le: "trailing_space s \<le> length s"
  by (auto simp: trailing_space_def suffix_length_le split: option.splits dest!: find_Some_iff[THEN iffD1])

lemma trailing_space_pos: "0 < trailing_space s \<Longrightarrow> s \<noteq> []"
  using trailing_space_le[of s] by auto

function TrimRightSpace :: "string \<Rightarrow> string" where
  "TrimRightSpace s =
     (if trailing_space s = 0 then s
      else TrimRightSpace (take (length s - trailing_space s) s))"
  by pat_completeness auto
termination
  by (relation "measure length") (use trailing_space_pos in auto)

definition TrimSpace :: "string \<Rightarrow> string" where
  "TrimSpace s = TrimRightSpace (TrimLeftSpace s)"

text \<open>
  What the specification calls an empty or whitespace-only string, stated without the
  trimming loops: a concatenation of encoded white-space runes.
\<close>

inductive whitespace_only :: "string \<Rightarrow> bool" where
  ws_empty: "whitespace_only []"
| ws_token: "t \<in> set space_tokens \<Longrightarrow> whitespace_only s \<Longrightarrow> whitespace_only (t @ s)"

declare TrimLeftSpace.simps [simp del] TrimRightSpace.simps [simp del]

lemma leading_space_token:
  assumes "t \<in> set space_tokens"
  shows "leading_space (t @ s) = length t"
  using assms
  by (simp add: space_tokens_def) (elim disjE; simp add: leading_space_def space_tokens_def)

lemma leading_space_cases:
  "leading_space s = 0 \<or> (\<exists>t r. t \<in> set space_tokens \<and> s = t @ r \<and> leading_space s = length t)"
proof (cases "find (\<lambda>t. prefix t s) space_tokens")
  case None
  then show ?thesis by (simp add: leading_space_def)
next
  case (Some t)
  then have "t \<in> set space_tokens" "prefix t s"
    by (auto simp: find_Some_iff)
  then show ?thesis using Some
    by (auto simp: leading_space_def prefix_def)
qed

lemma trailing_space_cases:
  "trailing_space s = 0 \<or> (\<exists>t r. t \<in> set space_tokens \<and> s = r @ t \<and> trailing_space s = length t)"
proof (cases "find (\<lambda>t. suffix t s) space_tokens")
  case None
  then show ?thesis by (simp add: trailing_space_def)
next
  case (Some t)
  then have "t \<in> set space_tokens" "suffix t s"
    by (auto simp: find_Some_iff)
  then show ?thesis using Some
    by (auto simp: trailing_space_def suffix_def)
qed

lemma TrimLeftSpace_whitespace_only: "whitespace_only s \<Longrightarrow> TrimLeftSpace s = []"
proof (induction rule: whitespace_only.induct)
  case ws_empty
  show ?case by (simp add: TrimLeftSpace.simps leading_space_def space_tokens_def)
next
  case (ws_token t s)
  have "leading_space (t @ s) = length t" by (rule leading_space_token[OF ws_token.hyps(1)])
  moreover have "t \<noteq> []" by (rule token_nonempty[OF ws_token.hyps(1)])
  ultimately show ?case
    using ws_token.IH by (subst TrimLeftSpace.simps) simp
qed

lemma whitespace_only_append:
  "whitespace_only a \<Longrightarrow> whitespace_only b \<Longrightarrow> whitespace_only (a @ b)"
  by (induction rule: whitespace_only.induct) (auto intro: whitespace_only.intros)

lemma TrimLeftSpace_split: "\<exists>pre. s = pre @ TrimLeftSpace s \<and> whitespace_only pre"
proof (induction s rule: TrimLeftSpace.induct)
  case (1 s)
  show ?case
  proof (cases "leading_space s = 0")
    case True
    then have "TrimLeftSpace s = s" by (subst TrimLeftSpace.simps) simp
    then show ?thesis using ws_empty by force
  next
    case False
    then obtain t r where t: "t \<in> set space_tokens" "s = t @ r" "leading_space s = length t"
      using leading_space_cases[of s] by auto
    from 1[OF False] obtain pre where pre: "drop (leading_space s) s = pre @ TrimLeftSpace (drop (leading_space s) s)"
      "whitespace_only pre" by blast
    have eq: "TrimLeftSpace s = TrimLeftSpace r"
      using False t by (subst TrimLeftSpace.simps) simp
    have "r = pre @ TrimLeftSpace r" using pre(1) t by simp
    then have "s = (t @ pre) @ TrimLeftSpace s" using t(2) eq by simp
    moreover have "whitespace_only (t @ pre)" using t(1) pre(2) by (rule ws_token)
    ultimately show ?thesis by blast
  qed
qed

lemma TrimRightSpace_empty: "TrimRightSpace x = [] \<Longrightarrow> whitespace_only x"
proof (induction x rule: TrimRightSpace.induct)
  case (1 s)
  show ?case
  proof (cases "trailing_space s = 0")
    case True
    then have "TrimRightSpace s = s" by (subst TrimRightSpace.simps) simp
    then show ?thesis using 1(2) ws_empty by simp
  next
    case False
    then obtain t r where t: "t \<in> set space_tokens" "s = r @ t" "trailing_space s = length t"
      using trailing_space_cases[of s] by auto
    have "TrimRightSpace s = TrimRightSpace r"
      using False t by (subst TrimRightSpace.simps) simp
    moreover have "take (length s - trailing_space s) s = r" using t by simp
    ultimately have "whitespace_only r" using 1(1)[OF False] 1(2) by simp
    moreover have "whitespace_only (t @ [])" using t(1) ws_empty by (rule ws_token)
    ultimately show ?thesis using t(2) whitespace_only_append by fastforce
  qed
qed

lemma TrimSpace_blank_iff: "length (TrimSpace s) = 0 \<longleftrightarrow> whitespace_only s"
proof
  assume "length (TrimSpace s) = 0"
  then have "whitespace_only (TrimLeftSpace s)"
    by (simp add: TrimSpace_def TrimRightSpace_empty)
  moreover obtain pre where "s = pre @ TrimLeftSpace s" "whitespace_only pre"
    using TrimLeftSpace_split by blast
  ultimately show "whitespace_only s" using whitespace_only_append by metis
next
  assume "whitespace_only s"
  then have "TrimLeftSpace s = []" by (rule TrimLeftSpace_whitespace_only)
  then show "length (TrimSpace s) = 0"
    by (simp add: TrimSpace_def TrimRightSpace.simps trailing_space_def space_tokens_def)
qed

section \<open>UUIDs (\<^verbatim>\<open>github.com/satori/go.uuid\<close>)\<close>

text \<open>
  \<^verbatim>\<open>uuid.UUID\<close> is \<^verbatim>\<open>[16]byte\<close>: a 128-bit word, byte 0 the most significant.
  \<^verbatim>\<open>String()\<close> writes the bytes in lower-case hexadecimal (\<^verbatim>\<open>hex.Encode\<close>, two digits a
  byte: \<^verbatim>\<open>hextable[v>>4]\<close>, \<^verbatim>\<open>hextable[v&0x0f]\<close>) in groups of 4, 2, 2, 2 and 6 bytes
  separated by dashes.

  \<^verbatim>\<open>uuid.NewV4()\<close> reads the random source. The value it returns is an input of every
  function below that calls it (the argument \<open>newV4\<close>): the functions are stated for
  every value the generator can return.
\<close>

type_synonym UUID = "128 word"

definition UUID_byte :: "UUID \<Rightarrow> nat \<Rightarrow> 8 word" where
  "UUID_byte u i = ucast (drop_bit (8 * (15 - i)) u)"

definition UUID_bytes :: "UUID \<Rightarrow> 8 word list" where
  "UUID_bytes u = map (UUID_byte u) [0..<16]"

definition hextable :: string where
  "hextable = ''0123456789abcdef''"

definition hex_Encode :: "8 word list \<Rightarrow> string" where
  "hex_Encode src =
     concat (map (\<lambda>v. [hextable ! unat (drop_bit 4 v), hextable ! unat (v AND 0x0f)]) src)"

definition UUID_String :: "UUID \<Rightarrow> string" where
  "UUID_String u =
     (let b = UUID_bytes u in
      hex_Encode (take 4 b) @ ''-'' @
      hex_Encode (take 2 (drop 4 b)) @ ''-'' @
      hex_Encode (take 2 (drop 6 b)) @ ''-'' @
      hex_Encode (take 2 (drop 8 b)) @ ''-'' @
      hex_Encode (drop 10 b))"


lemma length_hex_Encode [simp]: "length (hex_Encode bs) = 2 * length bs"
  by (induction bs) (simp_all add: hex_Encode_def)

lemma length_UUID_bytes [simp]: "length (UUID_bytes u) = 16"
  by (simp add: UUID_bytes_def)

lemma length_UUID_String: "length (UUID_String u) = 36"
  by (simp add: UUID_String_def Let_def)

lemma hi_nibble_lt: "unat (drop_bit 4 (v :: 8 word)) < 16"
proof -
  have "unat (drop_bit 4 v) = unat v div 2 ^ 4" by (simp add: drop_bit_eq_div unat_div)
  moreover have "unat v < 256" using unsigned_less[of v, where 'a=nat] by simp
  ultimately show ?thesis by simp
qed

lemma lo_nibble_lt: "unat ((v :: 8 word) AND 0x0f) < 16"
proof -
  have "(0x0f :: 8 word) = mask 4" by (simp add: mask_eq_exp_minus_1)
  then have "v AND 0x0f = take_bit 4 v" by (simp add: take_bit_eq_mask)
  then have "unat (v AND 0x0f) = take_bit 4 (unat v)" by (simp add: unsigned_take_bit_eq)
  then show ?thesis using take_bit_nat_less_exp[of 4 "unat v"] by simp
qed

lemma nibbles_eq:
  fixes v w :: "8 word"
  assumes "drop_bit 4 v = drop_bit 4 w" "v AND 0x0f = w AND 0x0f"
  shows "v = w"
proof -
  have m: "(0x0f :: 8 word) = mask 4" by (simp add: mask_eq_exp_minus_1)
  have "take_bit 4 v = take_bit 4 w" using assms(2) by (simp add: m take_bit_eq_mask)
  then show ?thesis using assms(1)
    by (metis bits_ident)
qed

lemma distinct_hextable: "distinct hextable"
  by (simp add: hextable_def)

lemma hextable_inj: "i < 16 \<Longrightarrow> j < 16 \<Longrightarrow> hextable ! i = hextable ! j \<Longrightarrow> i = j"
  using distinct_hextable by (simp add: nth_eq_iff_index_eq hextable_def)

lemma hex_Encode_inj:
  "length xs = length ys \<Longrightarrow> hex_Encode xs = hex_Encode ys \<Longrightarrow> xs = ys"
proof (induction xs ys rule: list_induct2)
  case Nil
  then show ?case by simp
next
  case (Cons x xs y ys)
  from Cons.prems have h: "hextable ! unat (drop_bit 4 x) = hextable ! unat (drop_bit 4 y)"
    "hextable ! unat (x AND 0x0f) = hextable ! unat (y AND 0x0f)"
    and t: "hex_Encode xs = hex_Encode ys"
    by (simp_all add: hex_Encode_def)
  have "unat (drop_bit 4 x) = unat (drop_bit 4 y)"
    using hextable_inj[OF hi_nibble_lt hi_nibble_lt h(1)] .
  moreover have "unat (x AND 0x0f) = unat (y AND 0x0f)"
    using hextable_inj[OF lo_nibble_lt lo_nibble_lt h(2)] .
  ultimately have "x = y" using nibbles_eq[of x y] by (simp add: word_unat_eq_iff)
  then show ?case using Cons.IH[OF t] by simp
qed

lemma bit_UUID_byte: "k < 8 \<Longrightarrow> bit (UUID_byte u i) k \<longleftrightarrow> bit u (8 * (15 - i) + k)"
  by (simp add: UUID_byte_def bit_ucast_iff bit_drop_bit_eq)

lemma UUID_bytes_inj: "UUID_bytes u = UUID_bytes v \<Longrightarrow> u = v"
proof (rule bit_eqI)
  fix n
  assume eq: "UUID_bytes u = UUID_bytes v"
  show "bit u n \<longleftrightarrow> bit v n"
  proof (cases "n < 128")
    case False
    then show ?thesis by (auto dest: bit_imp_le_length)
  next
    case True
    define i where "i = 15 - n div 8"
    have i: "i < 16" "8 * (15 - i) + n mod 8 = n" using True by (auto simp: i_def)
    have k: "n mod 8 < 8" by simp
    have "UUID_byte u i = UUID_byte v i"
      using eq i(1) by (auto simp: UUID_bytes_def)
    then have "bit (UUID_byte u i) (n mod 8) \<longleftrightarrow> bit (UUID_byte v i) (n mod 8)" by simp
    then show ?thesis unfolding bit_UUID_byte[OF k] i(2) .
  qed
qed

lemma slices_id:
  "take 4 xs @ take 2 (drop 4 xs) @ take 2 (drop 6 xs) @ take 2 (drop 8 xs) @ drop 10 xs = xs"
proof -
  have "take 2 (drop 8 xs) @ drop 10 xs = drop 8 xs"
    using append_take_drop_id[of 2 "drop 8 xs"] by simp
  moreover have "take 2 (drop 6 xs) @ drop 8 xs = drop 6 xs"
    using append_take_drop_id[of 2 "drop 6 xs"] by simp
  moreover have "take 2 (drop 4 xs) @ drop 6 xs = drop 4 xs"
    using append_take_drop_id[of 2 "drop 4 xs"] by simp
  ultimately show ?thesis by simp
qed

lemma UUID_String_inj: "UUID_String u = UUID_String v \<Longrightarrow> u = v"
proof -
  assume eq: "UUID_String u = UUID_String v"
  let ?a = "UUID_bytes u" and ?b = "UUID_bytes v"
  from eq have s:
    "take 4 ?a = take 4 ?b" "take 2 (drop 4 ?a) = take 2 (drop 4 ?b)"
    "take 2 (drop 6 ?a) = take 2 (drop 6 ?b)" "take 2 (drop 8 ?a) = take 2 (drop 8 ?b)"
    "drop 10 ?a = drop 10 ?b"
    by (auto simp: UUID_String_def Let_def intro!: hex_Encode_inj)
  have "?a = take 4 ?a @ take 2 (drop 4 ?a) @ take 2 (drop 6 ?a) @ take 2 (drop 8 ?a) @ drop 10 ?a"
    by (rule slices_id[symmetric])
  also have "\<dots> = take 4 ?b @ take 2 (drop 4 ?b) @ take 2 (drop 6 ?b) @ take 2 (drop 8 ?b) @ drop 10 ?b"
    by (simp only: s)
  also have "\<dots> = ?b" by (rule slices_id)
  finally have "?a = ?b" .
  then show ?thesis by (rule UUID_bytes_inj)
qed


lemma leading_hex: "c \<in> set hextable \<Longrightarrow> leading_space (c # cs) = 0"
  by (simp add: hextable_def) (elim disjE; simp add: leading_space_def space_tokens_def)

lemma trailing_hex: "c \<in> set hextable \<Longrightarrow> trailing_space (cs @ [c]) = 0"
  by (simp add: hextable_def)
    (elim disjE; simp add: trailing_space_def space_tokens_def suffix_to_prefix)

lemma hex_Encode_Cons:
  "hex_Encode (v # vs) = hextable ! unat (drop_bit 4 v) # hextable ! unat (v AND 0x0f) # hex_Encode vs"
  by (simp add: hex_Encode_def)

lemma hex_Encode_snoc:
  "hex_Encode (vs @ [v]) = hex_Encode vs @ [hextable ! unat (drop_bit 4 v), hextable ! unat (v AND 0x0f)]"
  by (simp add: hex_Encode_def)

lemma hextable_hi: "hextable ! unat (drop_bit 4 (v :: 8 word)) \<in> set hextable"
  using hi_nibble_lt[of v] by (intro nth_mem) (simp add: hextable_def)

lemma hextable_lo: "hextable ! unat ((v :: 8 word) AND 0x0f) \<in> set hextable"
  using lo_nibble_lt[of v] by (intro nth_mem) (simp add: hextable_def)

lemma UUID_bytes_shape: "\<exists>a as z. UUID_bytes u = a # as @ [z]"
proof -
  have "[0..<16] = 0 # [1..<15] @ [15]"
    by (simp add: upt_rec)
  then show ?thesis by (simp add: UUID_bytes_def)
qed

lemma UUID_String_shape:
  "\<exists>c cs d. UUID_String u = c # cs @ [d] \<and> c \<in> set hextable \<and> d \<in> set hextable"
proof -
  obtain a as z where b: "UUID_bytes u = a # as @ [z]" using UUID_bytes_shape by blast
  have l: "length (UUID_bytes u) = 16" by simp
  then have las: "length as = 14" using b by simp
  have "take 4 (UUID_bytes u) = a # take 3 as" using b las by simp
  moreover have "drop 10 (UUID_bytes u) = drop 9 as @ [z]" using b las by simp
  ultimately have "UUID_String u =
      hextable ! unat (drop_bit 4 a) #
      (hextable ! unat (a AND 0x0f) # hex_Encode (take 3 as) @ ''-'' @
       hex_Encode (take 2 (drop 4 (UUID_bytes u))) @ ''-'' @
       hex_Encode (take 2 (drop 6 (UUID_bytes u))) @ ''-'' @
       hex_Encode (take 2 (drop 8 (UUID_bytes u))) @ ''-'' @
       hex_Encode (drop 9 as) @ [hextable ! unat (drop_bit 4 z)]) @
      [hextable ! unat (z AND 0x0f)]"
    unfolding UUID_String_def Let_def
    by (simp only: hex_Encode_Cons hex_Encode_snoc append.simps append_assoc)
  then show ?thesis
    using hextable_hi[of a] hextable_lo[of z] by blast
qed

lemma TrimSpace_UUID_String: "TrimSpace (UUID_String u) = UUID_String u"
proof -
  obtain c cs d where s: "UUID_String u = c # cs @ [d]" "c \<in> set hextable" "d \<in> set hextable"
    using UUID_String_shape by blast
  have "leading_space (UUID_String u) = 0" using s leading_hex by simp
  then have "TrimLeftSpace (UUID_String u) = UUID_String u" by (subst TrimLeftSpace.simps) simp
  moreover have "trailing_space (UUID_String u) = 0"
    using s trailing_hex[of d "c # cs"] by simp
  then have "TrimRightSpace (UUID_String u) = UUID_String u" by (subst TrimRightSpace.simps) simp
  ultimately show ?thesis by (simp add: TrimSpace_def)
qed


section \<open>The structured logger (\<^verbatim>\<open>zerolog\<close>) as the code uses it\<close>

text \<open>
  A \<^verbatim>\<open>zerolog.Logger\<close> is a value: \<^verbatim>\<open>With()\<close> copies the fields accumulated so far into
  a buffer of its own, \<^verbatim>\<open>Str(k, v)\<close> appends one field to that copy and \<^verbatim>\<open>Logger()\<close>
  returns the extended logger, so the logger it was branched from keeps its fields. The
  model keeps the fields in the order they were added. An event (\<^verbatim>\<open>Info()\<close>,
  \<^verbatim>\<open>Error()\<close>, ...) starts from the logger's fields, takes more fields, and \<^verbatim>\<open>Msg\<close> hands
  one line to the sink. What the sink does with a line (its level filter, its writers) is
  outside the model: a line is emitted when \<^verbatim>\<open>Msg\<close> is called on it.
\<close>

datatype Level = DebugLevel | InfoLevel | WarnLevel | ErrorLevel | FatalLevel

datatype Field =
    FStr string string
  | FInt string int
  | FDur string int
  | FErr string
  | FTimestamp

record Logger =
  ctxFields :: "Field list"

record LogLine =
  level :: Level
  lineFields :: "Field list"
  message :: string

type_synonym strmap = "(string \<times> string) list"

definition ctxStr :: "Logger \<Rightarrow> string \<Rightarrow> string \<Rightarrow> Logger" where
  "ctxStr l k v = l\<lparr>ctxFields := ctxFields l @ [FStr k v]\<rparr>"

text \<open>
  A chain \<^verbatim>\<open>l.With().Str(k1, v1). ... .Str(kn, vn).Logger()\<close>, and the loop
  \<^verbatim>\<open>for k, v := range m { loggerWith = loggerWith.Str(k, v) }\<close>. A Go map is visited in an
  order the runtime chooses: a \<^typ>\<open>strmap\<close> argument is the sequence of entries in the
  order the loop visits them, so that the functions are stated for every order.
\<close>

definition addStrs :: "Logger \<Rightarrow> strmap \<Rightarrow> Logger" where
  "addStrs l kvs = foldl (\<lambda>acc (k, v). ctxStr acc k v) l kvs"

definition Msg :: "Level \<Rightarrow> Logger \<Rightarrow> Field list \<Rightarrow> string \<Rightarrow> LogLine" where
  "Msg lvl l evFields msg = \<lparr>level = lvl, lineFields = ctxFields l @ evFields, message = msg\<rparr>"


section \<open>The execution context (package \<^verbatim>\<open>context\<close>)\<close>

record JwtToken =
  Admin :: bool
  TenantID :: UUID
  UserID :: UUID
  UserName :: string
  TenantName :: string
  DisplayName :: string
  Raw :: string

text \<open>
  \<^verbatim>\<open>*repository.UnitOfWork\<close> is an opaque reference: the context stores and returns it and
  never looks inside. \<^verbatim>\<open>*security.JwtToken\<close> is read (never written) by this package, so
  the token a context points to is modelled by its value. \<open>None\<close> is \<^verbatim>\<open>nil\<close>.
\<close>

type_synonym UnitOfWork = nat

record executionContextImpl =
  CorrelationID :: string
  UOW :: "UnitOfWork option"
  Token :: "JwtToken option"
  Action :: string
  logger :: Logger

definition NewExecutionContext ::
  "UUID \<Rightarrow> JwtToken option \<Rightarrow> string \<Rightarrow> string \<Rightarrow> Logger \<Rightarrow> executionContextImpl" where
  "NewExecutionContext newV4 token correlationID action lg =
     (let cid = (if length (TrimSpace correlationID) = 0 then UUID_String newV4
                 else correlationID);
          executionCtxLogger =
            (case token of
               Some t \<Rightarrow>
                 addStrs lg
                   [(''tenantId'', UUID_String (TenantID t)),
                    (''userId'', UUID_String (UserID t)),
                    (''username'', UserName t),
                    (''tenantName'', TenantName t),
                    (''userDisplayName'', DisplayName t),
                    (''action'', action),
                    (''correlationId'', cid)]
             | None \<Rightarrow>
                 addStrs lg [(''action'', action), (''correlationId'', cid)])
      in \<lparr>CorrelationID = cid, UOW = None, Token = token, Action = action,
          logger = executionCtxLogger\<rparr>)"

subsection \<open>Contexts are objects: the store\<close>

text \<open>
  Every constructor returns \<^verbatim>\<open>&executionContextImpl{...}\<close> and every method has a pointer
  receiver, so two holders of one context see each other's \<^verbatim>\<open>AddLoggerStrFields\<close> and
  \<^verbatim>\<open>SetUOW\<close>. The store is the list of the contexts allocated so far; a reference is an
  index into it, and allocation appends. A method called through a reference that is not
  in the store is a nil dereference: it panics (\<open>None\<close>).
\<close>

type_synonym ref = nat
type_synonym store = "executionContextImpl list"

definition deref :: "store \<Rightarrow> ref \<Rightarrow> executionContextImpl option" where
  "deref h p = (if p < length h then Some (h ! p) else None)"

definition new :: "executionContextImpl \<Rightarrow> store \<Rightarrow> ref \<times> store" where
  "new c h = (length h, h @ [c])"

definition AddLoggerStrFields :: "ref \<Rightarrow> strmap \<Rightarrow> store \<Rightarrow> store option" where
  "AddLoggerStrFields p strFields h =
     (case deref h p of
        None \<Rightarrow> None
      | Some c \<Rightarrow> Some (h[p := c\<lparr>logger := addStrs (logger c) strFields\<rparr>]))"

definition SetUOW :: "ref \<Rightarrow> UnitOfWork option \<Rightarrow> store \<Rightarrow> store option" where
  "SetUOW p uow h =
     (case deref h p of
        None \<Rightarrow> None
      | Some c \<Rightarrow> Some (h[p := c\<lparr>UOW := uow\<rparr>]))"

definition GetActionName :: "ref \<Rightarrow> store \<Rightarrow> string option" where
  "GetActionName p h = map_option Action (deref h p)"

definition GetCorrelationID :: "ref \<Rightarrow> store \<Rightarrow> string option" where
  "GetCorrelationID p h = map_option CorrelationID (deref h p)"

definition GetDefaultLogger :: "ref \<Rightarrow> store \<Rightarrow> Logger option" where
  "GetDefaultLogger p h = map_option logger (deref h p)"

definition GetToken :: "ref \<Rightarrow> store \<Rightarrow> JwtToken option option" where
  "GetToken p h = map_option Token (deref h p)"

definition GetUOW :: "ref \<Rightarrow> store \<Rightarrow> UnitOfWork option option" where
  "GetUOW p h = map_option UOW (deref h p)"

text \<open>
  The four derivations. Each literal is positional, in the order of the struct's fields:
  correlation id, unit of work, token, action, logger.
\<close>

definition SubContext :: "ref \<Rightarrow> strmap \<Rightarrow> store \<Rightarrow> (ref \<times> store) option" where
  "SubContext p additionalFields h =
     (case deref h p of
        None \<Rightarrow> None
      | Some c \<Rightarrow>
          Some (new \<lparr>CorrelationID = CorrelationID c, UOW = UOW c, Token = Token c,
                     Action = Action c, logger = addStrs (logger c) additionalFields\<rparr> h))"

definition SubContextWithToken ::
  "ref \<Rightarrow> JwtToken option \<Rightarrow> strmap \<Rightarrow> store \<Rightarrow> (ref \<times> store) option" where
  "SubContextWithToken p token additionalFields h =
     (case deref h p of
        None \<Rightarrow> None
      | Some c \<Rightarrow>
          Some (new \<lparr>CorrelationID = CorrelationID c, UOW = UOW c, Token = token,
                     Action = Action c, logger = addStrs (logger c) additionalFields\<rparr> h))"

definition SubContextWithTokenAndUoW ::
  "ref \<Rightarrow> JwtToken option \<Rightarrow> UnitOfWork option \<Rightarrow> strmap \<Rightarrow> store \<Rightarrow> (ref \<times> store) option" where
  "SubContextWithTokenAndUoW p token uow additionalFields h =
     (case deref h p of
        None \<Rightarrow> None
      | Some c \<Rightarrow>
          Some (new \<lparr>CorrelationID = CorrelationID c, UOW = uow, Token = token,
                     Action = Action c, logger = addStrs (logger c) additionalFields\<rparr> h))"

definition SubContextWithUoW ::
  "ref \<Rightarrow> UnitOfWork option \<Rightarrow> strmap \<Rightarrow> store \<Rightarrow> (ref \<times> store) option" where
  "SubContextWithUoW p uow additionalFields h =
     (case deref h p of
        None \<Rightarrow> None
      | Some c \<Rightarrow>
          Some (new \<lparr>CorrelationID = CorrelationID c, UOW = uow, Token = Token c,
                     Action = Action c, logger = addStrs (logger c) additionalFields\<rparr> h))"

subsection \<open>Sequences of calls\<close>

text \<open>
  A program that holds contexts calls the six operations that write the store in some
  order, each on a context it holds. \<open>run\<close> performs such a sequence; it stops with
  \<open>None\<close> at a call through a reference that was never returned.
\<close>

datatype call =
    CallSubContext ref strmap
  | CallSubContextWithToken ref "JwtToken option" strmap
  | CallSubContextWithTokenAndUoW ref "JwtToken option" "UnitOfWork option" strmap
  | CallSubContextWithUoW ref "UnitOfWork option" strmap
  | CallAddLoggerStrFields ref strmap
  | CallSetUOW ref "UnitOfWork option"

fun step :: "call \<Rightarrow> store \<Rightarrow> store option" where
  "step (CallSubContext p fs) h = map_option snd (SubContext p fs h)"
| "step (CallSubContextWithToken p t fs) h = map_option snd (SubContextWithToken p t fs h)"
| "step (CallSubContextWithTokenAndUoW p t u fs) h =
     map_option snd (SubContextWithTokenAndUoW p t u fs h)"
| "step (CallSubContextWithUoW p u fs) h = map_option snd (SubContextWithUoW p u fs h)"
| "step (CallAddLoggerStrFields p fs) h = AddLoggerStrFields p fs h"
| "step (CallSetUOW p u) h = SetUOW p u h"

fun run :: "call list \<Rightarrow> store \<Rightarrow> store option" where
  "run [] h = Some h"
| "run (c # cs) h = (case step c h of None \<Rightarrow> None | Some h' \<Rightarrow> run cs h')"

subsection \<open>Logging through a context\<close>

text \<open>
  The errors \<^verbatim>\<open>LogError\<close> tells apart, in the order of its type switch. Each carries what
  the branch reads from it and the text \<^verbatim>\<open>err.Error()\<close> that \<^verbatim>\<open>Err(err)\<close> logs. An
  error of any other dynamic type is an \<open>OtherError\<close>.
\<close>

datatype error =
    ValidationError string
  | HTTPResourceNotFound string string string string
  | APIClientError string string string "string option" "int option" string
  | UnexpectedError string string string
  | OtherError string

fun Error :: "error \<Rightarrow> string" where
  "Error (ValidationError txt) = txt"
| "Error (HTTPResourceNotFound errorKey resourceName resourceValue txt) = txt"
| "Error (APIClientError code stack url body status txt) = txt"
| "Error (UnexpectedError code stack txt) = txt"
| "Error (OtherError txt) = txt"

text \<open>
  The constants of package \<^verbatim>\<open>log\<close> that this package names. Their values are not part of
  the code at hand and are parameters of the model.
\<close>

record log_consts =
  EventTypeValidationErr :: string
  EventTypeUnexpectedErr :: string
  EventTypeSuccess :: string
  EventCodeInvalidData :: string
  EventCodeUnknown :: string
  EventCodeActionComplete :: string
  MessageInvalidInputData :: string
  MessageParseError :: string

definition ctxLogger :: "executionContextImpl \<Rightarrow> string \<Rightarrow> string \<Rightarrow> Logger" where
  "ctxLogger c eventType eventCode =
     addStrs (logger c) [(''eventType'', eventType), (''eventCode'', eventCode)]"

text \<open>
  \<^verbatim>\<open>LogError\<close> returns the lines it emits, in order. In the API-client branch the event is
  a pointer that \<^verbatim>\<open>Str\<close> and \<^verbatim>\<open>Int\<close> extend in place, so the response body is part of the
  line although the result of that call is dropped.
\<close>

fun LogError :: "log_consts \<Rightarrow> executionContextImpl \<Rightarrow> error \<Rightarrow> string \<Rightarrow> LogLine list" where
  "LogError K c (ValidationError txt) errorMessage =
     [Msg InfoLevel (ctxLogger c (EventTypeValidationErr K) (EventCodeInvalidData K))
        [FErr txt] (MessageInvalidInputData K)]"
| "LogError K c (HTTPResourceNotFound errorKey resourceName resourceValue txt) errorMessage =
     [Msg DebugLevel (ctxLogger c (EventTypeUnexpectedErr K) errorKey)
        [FErr txt, FStr ''resourceName'' resourceName, FStr ''resourceValue'' resourceValue]
        errorMessage]"
| "LogError K c (APIClientError code stack url body status txt) errorMessage =
     [Msg ErrorLevel (ctxLogger c (EventTypeUnexpectedErr K) code)
        ([FErr txt, FStr ''stack'' stack, FStr ''apiURL'' url]
         @ (case body of None \<Rightarrow> [] | Some responseBody \<Rightarrow> [FStr ''responseBody'' responseBody])
         @ (case status of None \<Rightarrow> []
            | Some responseCode \<Rightarrow> [FInt ''responseStatusCode'' responseCode]))
        errorMessage]"
| "LogError K c (UnexpectedError code stack txt) errorMessage =
     [Msg ErrorLevel (ctxLogger c (EventTypeUnexpectedErr K) code)
        [FErr txt, FStr ''stack'' stack] errorMessage]"
| "LogError K c (OtherError txt) errorMessage =
     [Msg ErrorLevel (ctxLogger c (EventTypeUnexpectedErr K) (EventCodeUnknown K))
        [FErr txt] errorMessage]"

definition LogJSONParseError :: "log_consts \<Rightarrow> executionContextImpl \<Rightarrow> error \<Rightarrow> LogLine list" where
  "LogJSONParseError K c err = LogError K c err (MessageParseError K)"


section \<open>The application (package \<^verbatim>\<open>microapp\<close>)\<close>

subsection \<open>Errors, handles and configuration\<close>

text \<open>
  An \<^verbatim>\<open>error\<close> that a library returns is known to this package by its text
  (\<^verbatim>\<open>err.Error()\<close>), except \<^verbatim>\<open>http.ErrServerClosed\<close>, which \<open>Start\<close> compares by
  identity. What the bootstrap closure returns is such an error as it is, or the same
  wrapped in \<^verbatim>\<open>retry.Stop{OriginalError: err}\<close>, where \<open>err\<close> may be \<^verbatim>\<open>nil\<close>.
\<close>

datatype go_error = ErrServerClosed | ErrorString string

fun Error_of :: "go_error \<Rightarrow> string" where
  "Error_of ErrServerClosed = ''http: Server closed''"
| "Error_of (ErrorString s) = s"

datatype attempt_error = Plain go_error | retry_Stop "go_error option"

text \<open>\<^verbatim>\<open>strings.Contains(s, substr)\<close>: \<open>substr\<close> occurs in \<open>s\<close> at some position.\<close>

fun Contains :: "string \<Rightarrow> string \<Rightarrow> bool" where
  "Contains [] substr = (substr = [])"
| "Contains (c # cs) substr = (prefix substr (c # cs) \<or> Contains cs substr)"

text \<open>
  \<^verbatim>\<open>time.Duration\<close> is a signed 64-bit count of nanoseconds; its arithmetic wraps.
\<close>

type_synonym Duration = "64 word"

definition Second :: Duration where
  "Second = 1000000000"

definition Minute :: Duration where
  "Minute = 60 * Second"

text \<open>
  A \<^verbatim>\<open>*sql.DB\<close> is an opaque reference. Of a \<^verbatim>\<open>*gorm.DB\<close> the code only asks for the
  pool underneath: \<open>DB_result\<close> is the pair \<^verbatim>\<open>db.DB()\<close> returns.
\<close>

type_synonym sql_DB = nat

record gorm_DB =
  DB_result :: "sql_DB option \<times> go_error option"

datatype glogger_LogLevel = glogger_Silent | glogger_Error | glogger_Warn | glogger_Info

record gorm_Config =
  PrepareStmt :: bool
  LogMode :: glogger_LogLevel
  SingularTable :: bool

record Config =
  GetString :: "string \<Rightarrow> string"
  GetBool :: "string \<Rightarrow> bool"
  GetInt :: "string \<Rightarrow> int"

record Server =
  Addr :: string
  WriteTimeout :: Duration
  ReadTimeout :: Duration
  IdleTimeout :: Duration

text \<open>
  The fields of \<^verbatim>\<open>App\<close> that the functions below read or write. \<open>None\<close> is a \<^verbatim>\<open>nil\<close>
  pointer.
\<close>

record App =
  Name :: string
  Config :: Config
  DB :: "gorm_DB option"
  server :: "Server option"
  log :: Logger

text \<open>
  What this package takes from outside the code at hand: the names of the configuration
  keys, constants of package \<^verbatim>\<open>config\<close>, and \<^verbatim>\<open>strings.ToLower\<close>.
\<close>

record externals =
  EvSuffixForDBRequired :: string
  EvSuffixForDBLogLevel :: string
  EvSuffixForLogLevel :: string
  EvSuffixForDBConnectionLifetime :: string
  EvSuffixForDBMaxIdleConnections :: string
  ToLower :: "string \<Rightarrow> string"

subsection \<open>Requests\<close>

text \<open>
  \<^verbatim>\<open>http.Header\<close> maps a key to the list of its values. \<^verbatim>\<open>Get\<close> returns the first value
  of the key, or the empty string; \<^verbatim>\<open>Set\<close> replaces the values of the key by one.
  Both bring the key they are given to its canonical form first; the code calls them
  with the same literal keys, which stand for their canonical forms here.
\<close>

type_synonym Header_t = "string \<Rightarrow> string list option"

record Request =
  Header :: Header_t
  Method :: string
  RequestURI :: string

definition Header_Get :: "Header_t \<Rightarrow> string \<Rightarrow> string" where
  "Header_Get h k = (case h k of None \<Rightarrow> [] | Some [] \<Rightarrow> [] | Some (v # vs) \<Rightarrow> v)"

definition Header_Set :: "Header_t \<Rightarrow> string \<Rightarrow> string \<Rightarrow> Header_t" where
  "Header_Set h k v = h(k \<mapsto> [v])"

definition GetCorrelationIDFromRequest :: "Request \<Rightarrow> string" where
  "GetCorrelationIDFromRequest r = Header_Get (Header r) ''X-Correlation-ID''"

subsection \<open>Effects\<close>

text \<open>
  A function of the application acts on the world: it hands lines to the logger, opens
  the database, listens, sleeps. Its model returns the actions in the order they happen,
  and how the function ends: it returns, or the process exits (a \<^verbatim>\<open>Fatal()\<close> line calls
  \<^verbatim>\<open>os.Exit(1)\<close> once written), or it panics on a nil pointer. What the world answers (the
  result of \<^verbatim>\<open>sql.Open\<close>, of \<^verbatim>\<open>gorm.Open\<close>, of the listener) is an argument of the model.
\<close>

datatype action =
    Log LogLine
  | SqlOpen string string
  | SetConnMaxLifetime sql_DB Duration
  | SetMaxIdleConns sql_DB int
  | GormOpen sql_DB gorm_Config
  | Sleep Duration
  | Shutdown Duration
  | SqlClose "sql_DB option"
  | ListenAndServe
  | ListenAndServeTLS string string
  | ServeHTTP Request
  | WriteHeader int

datatype 'a outcome = Returns 'a | Exits | Panics

subsection \<open>Database bootstrap\<close>

definition GetConnectionString :: "App \<Rightarrow> string" where
  "GetConnectionString app =
     (let dbHost = GetString (Config app) ''DB_HOST'';
          dbName = GetString (Config app) ''DB_NAME'';
          dbPort = GetString (Config app) ''DB_PORT'';
          dbUser = GetString (Config app) ''DB_USER'';
          dbPassword = GetString (Config app) ''DB_PWD''
      in dbUser @ '':'' @ dbPassword @ ''@tcp('' @ dbHost @ '':'' @ dbPort @ '')/'' @ dbName
         @ ''?multiStatements=true&charset=utf8&parseTime=True&loc=Local'')"

definition dbconf_of :: "externals \<Rightarrow> App \<Rightarrow> gorm_Config" where
  "dbconf_of X app =
     (let lvl = ToLower X (GetString (Config app) (EvSuffixForDBLogLevel X));
          mode =
            (if lvl = ''info'' then glogger_Info
             else if lvl = ''warn'' then glogger_Warn
             else if lvl = ''error'' then glogger_Error
             else if lvl = ''silent'' then glogger_Silent
             else if ToLower X (GetString (Config app) (EvSuffixForLogLevel X)) = ''trace''
               then glogger_Info
             else glogger_Error)
      in \<lparr>PrepareStmt = True, LogMode = mode,
          SingularTable = GetBool (Config app) ''DB_NAMING_STRATEGY_IS_SINGULAR''\<rparr>)"

text \<open>What \<^verbatim>\<open>sql.Open\<close> and \<^verbatim>\<open>gorm.Open\<close> return in one attempt.\<close>

record attempt_env =
  sql_Open_result :: "sql_DB option \<times> go_error option"
  gorm_Open_result :: "gorm_DB option \<times> go_error option"

text \<open>
  The closure that \<open>initializeDB\<close> passes to the retry executor. It assigns the captured
  variable \<open>db\<close> when it reaches \<^verbatim>\<open>gorm.Open\<close>: the model takes the variable's value and
  returns the new one beside the closure's result.
\<close>

definition connect ::
  "externals \<Rightarrow> App \<Rightarrow> attempt_env \<Rightarrow> gorm_DB option
     \<Rightarrow> action list \<times> (attempt_error option \<times> gorm_DB option) outcome" where
  "connect X app env db =
     (let dbconf = dbconf_of X app;
          (sqlDB, err) = sql_Open_result env;
          t1 = [SqlOpen ''mysql'' (GetConnectionString app)]
               @ (case err of
                    None \<Rightarrow> []
                  | Some e \<Rightarrow>
                      [Log (Msg ErrorLevel (log app) [FErr (Error_of e)]
                         (''Error creating connection pool ['' @ Error_of e
                          @ '']. Trying again...''))])
      in case sqlDB of
           None \<Rightarrow> (t1, Panics)
         | Some h \<Rightarrow>
             (let t2 = t1
                    @ [SetConnMaxLifetime h
                         (word_of_int
                            (GetInt (Config app) (EvSuffixForDBConnectionLifetime X)) * Minute),
                       SetMaxIdleConns h
                         (GetInt (Config app) (EvSuffixForDBMaxIdleConnections X)),
                       GormOpen h dbconf];
                  (db', err') = gorm_Open_result env
              in case err' of
                   Some e \<Rightarrow>
                     if Contains (Error_of e) ''connection refused''
                     then (t2 @ [Log (Msg WarnLevel (log app) []
                                   (''Error connecting to Database ['' @ Error_of e
                                    @ '']. Trying again...''))],
                           Returns (Some (Plain e), db'))
                     else (t2, Returns (Some (retry_Stop err'), db'))
                 | None \<Rightarrow> (t2, Returns (Some (retry_Stop err'), db'))))"

type_synonym attempt =
  "nat \<Rightarrow> gorm_DB option \<Rightarrow> action list \<times> (attempt_error option \<times> gorm_DB option) outcome"

type_synonym retry_executor =
  "nat \<Rightarrow> Duration \<Rightarrow> attempt \<Rightarrow> gorm_DB option
     \<Rightarrow> action list \<times> (go_error option \<times> gorm_DB option) outcome"

text \<open>
  \<open>initializeDB\<close>, for any retry executor \<open>Do\<close>. The world's answers to the attempts are
  \<open>envs\<close>, by the number of the attempt.
\<close>

definition initializeDB ::
  "externals \<Rightarrow> retry_executor \<Rightarrow> App \<Rightarrow> (nat \<Rightarrow> attempt_env)
     \<Rightarrow> action list \<times> (go_error option \<times> App) outcome" where
  "initializeDB X Do app envs =
     (if GetBool (Config app) (EvSuffixForDBRequired X) then
        (case Do 3 (Second * 15) (\<lambda>i db. connect X app (envs i) db) None of
           (tr, Returns (err, db)) \<Rightarrow>
             (tr @ [Log (Msg InfoLevel (log app) [] ''Database connected!'')],
              Returns (err, app\<lparr>DB := db\<rparr>))
         | (tr, Exits) \<Rightarrow> (tr, Exits)
         | (tr, Panics) \<Rightarrow> (tr, Panics))
      else ([], Returns (None, app)))"

text \<open>
  Modelled from the spec: package \<^verbatim>\<open>retry\<close> is not among the source files. The
  specification's RetryExecutor runs the operation up to \<open>maxAttempts\<close> times, one after
  the other; after a failing attempt, if attempts remain, it sleeps for exactly \<open>delay\<close>
  and retries; on the terminal-failure wrapper it stops at once and returns the wrapped
  error, unwrapped; when the attempts are exhausted it returns the last attempt's error;
  when the operation returns \<^verbatim>\<open>nil\<close> it stops at once and returns \<^verbatim>\<open>nil\<close>. A plan has at
  least one attempt; with none, no attempt is made.
\<close>

fun retry_from :: "nat \<Rightarrow> retry_executor" where
  "retry_from i 0 delay operation db = ([], Returns (None, db))"
| "retry_from i (Suc n) delay operation db =
     (case operation i db of
        (tr, Panics) \<Rightarrow> (tr, Panics)
      | (tr, Exits) \<Rightarrow> (tr, Exits)
      | (tr, Returns (None, db')) \<Rightarrow> (tr, Returns (None, db'))
      | (tr, Returns (Some (retry_Stop e), db')) \<Rightarrow> (tr, Returns (e, db'))
      | (tr, Returns (Some (Plain e), db')) \<Rightarrow>
          if n = 0 then (tr, Returns (Some e, db'))
          else (case retry_from (Suc i) n delay operation db' of
                  (tr', out) \<Rightarrow> (tr @ [Sleep delay] @ tr', out)))"

definition retry_Do :: retry_executor where
  "retry_Do maxAttempts delay operation db = retry_from 0 maxAttempts delay operation db"

subsection \<open>Serving and stopping\<close>

text \<open>
  \<open>listen\<close> is what \<^verbatim>\<open>ListenAndServe\<close> (or \<^verbatim>\<open>ListenAndServeTLS\<close>) returns when the
  listener stops.
\<close>

definition StartSecure ::
  "App \<Rightarrow> string \<Rightarrow> string \<Rightarrow> go_error option \<Rightarrow> action list \<times> unit outcome" where
  "StartSecure app tlsCert tlsKey listen =
     (if tlsCert = [] then
        ([Log (Msg FatalLevel (log app) []
                 ''TLS_CRT is not defined or empty, exiting the application!'')], Exits)
      else if tlsKey = [] then
        ([Log (Msg FatalLevel (log app) []
                 ''TLS_KEY is not defined or empty, exiting the application!'')], Exits)
      else
        (case server app of
           None \<Rightarrow> ([], Panics)
         | Some srv \<Rightarrow>
             (case listen of
                Some err \<Rightarrow>
                  ([ListenAndServeTLS tlsCert tlsKey,
                    Log (Msg FatalLevel (log app) [FErr (Error_of err)]
                      ''Unable to start server or server stopped, exiting the application!'')],
                   Exits)
              | None \<Rightarrow> ([ListenAndServeTLS tlsCert tlsKey], Returns ()))))"

definition Start :: "App \<Rightarrow> go_error option \<Rightarrow> action list \<times> unit outcome" where
  "Start app listen =
     (if GetString (Config app) ''ENABLE_TLS'' = ''true'' then
        StartSecure app (GetString (Config app) ''TLS_CRT'') (GetString (Config app) ''TLS_KEY'')
          listen
      else
        (case server app of
           None \<Rightarrow> ([], Panics)
         | Some srv \<Rightarrow>
             (case listen of
                Some err \<Rightarrow>
                  if err \<noteq> ErrServerClosed then
                    ([ListenAndServe,
                      Log (Msg FatalLevel (log app) [FErr (Error_of err)]
                        ''Unable to start server, exiting the application!'')], Exits)
                  else ([ListenAndServe], Returns ())
              | None \<Rightarrow> ([ListenAndServe], Returns ()))))"

text \<open>
  \<open>Stop\<close>. The wait is \<^verbatim>\<open>time.ParseDuration("2m")\<close>, two minutes. What \<^verbatim>\<open>Shutdown\<close>
  returns is dropped.
\<close>

definition Stop :: "App \<Rightarrow> action list \<times> unit outcome" where
  "Stop app =
     (let wait = 2 * Minute in
      case server app of
        None \<Rightarrow> ([], Panics)
      | Some srv \<Rightarrow>
          if GetBool (Config app) ''DB_REQUIRED'' then
            (case DB app of
               None \<Rightarrow> ([Shutdown wait], Panics)
             | Some gdb \<Rightarrow>
                 (let (sqlDB, err) = DB_result gdb in
                  if err \<noteq> None then
                    (case sqlDB of
                       None \<Rightarrow> ([Shutdown wait, SqlClose None], Panics)
                     | Some h \<Rightarrow> ([Shutdown wait, SqlClose (Some h)], Returns ()))
                  else ([Shutdown wait], Returns ())))
          else ([Shutdown wait], Returns ()))"

subsection \<open>The logging middleware\<close>

definition App_Logger :: "App \<Rightarrow> string \<Rightarrow> Logger" where
  "App_Logger app module = addStrs (log app) [(''service'', Name app), (''module'', module)]"

definition ctxTimestamp :: "Logger \<Rightarrow> Logger" where
  "ctxTimestamp l = l\<lparr>ctxFields := ctxFields l @ [FTimestamp]\<rparr>"

text \<open>
  The handler \<open>next\<close> is given the recorder and the request, the same object the
  middleware wrote the header on. Of what it does the middleware sees the status codes it
  passes to \<^verbatim>\<open>WriteHeader\<close>, which the recorder keeps (the last one; 0 when there is none)
  and forwards, and whether it returns. \<open>newV4\<close> is the UUID drawn if one is needed,
  \<open>elapsed\<close> the time measured when the handler has returned.
\<close>

definition loggingMiddleware ::
  "App \<Rightarrow> (Request \<Rightarrow> int list \<times> unit outcome) \<Rightarrow> UUID \<Rightarrow> int \<Rightarrow> Request
     \<Rightarrow> action list \<times> unit outcome" where
  "loggingMiddleware app next newV4 elapsed r =
     (let r1 = (if Header_Get (Header r) ''X-Correlation-ID'' = []
                then r\<lparr>Header := Header_Set (Header r) ''X-Correlation-ID'' (UUID_String newV4)\<rparr>
                else r);
          logger =
            addStrs (ctxTimestamp (App_Logger app ''Ingress''))
              [(''caller'', Header_Get (Header r1) ''X-Client''),
               (''correlationId'', Header_Get (Header r1) ''X-Correlation-ID''),
               (''method'', Method r1),
               (''requestURI'', RequestURI r1)];
          begin = [Log (Msg InfoLevel logger [] ''Begin''), ServeHTTP r1];
          (codes, out) = next r1;
          status = (if codes = [] then 0 else last codes)
      in case out of
           Returns u \<Rightarrow>
             (begin @ map WriteHeader codes
              @ [Log (Msg (if status \<ge> 500 then ErrorLevel else InfoLevel) logger
                        [FInt ''status'' status, FDur ''responseTime'' elapsed] ''End.'')],
              Returns ())
         | Exits \<Rightarrow> (begin @ map WriteHeader codes, Exits)
         | Panics \<Rightarrow> (begin @ map WriteHeader codes, Panics))"


section \<open>Properties of the execution context\<close>

subsection \<open>The store\<close>

lemma deref_Some_iff: "deref h p = Some c \<longleftrightarrow> p < length h \<and> h ! p = c"
  by (auto simp: deref_def)

text \<open>
  The invariant of a context tree: every context in the store has the correlation id and
  the action of \<open>root\<close>.
\<close>

definition shares_id_action :: "executionContextImpl \<Rightarrow> store \<Rightarrow> bool" where
  "shares_id_action root h =
     list_all (\<lambda>c. CorrelationID c = CorrelationID root \<and> Action c = Action root) h"

lemma shares_new:
  "shares_id_action root h \<Longrightarrow> CorrelationID c = CorrelationID root \<Longrightarrow> Action c = Action root
   \<Longrightarrow> shares_id_action root (h @ [c])"
  by (simp add: shares_id_action_def)

lemma shares_nth:
  "shares_id_action root h \<Longrightarrow> deref h p = Some c
   \<Longrightarrow> CorrelationID c = CorrelationID root \<and> Action c = Action root"
  by (auto simp: shares_id_action_def deref_Some_iff list_all_length)

lemma shares_update:
  "shares_id_action root h \<Longrightarrow> CorrelationID c = CorrelationID root \<Longrightarrow> Action c = Action root
   \<Longrightarrow> shares_id_action root (h[p := c])"
  using set_update_subset_insert[of h p c] by (auto simp: shares_id_action_def list_all_iff)

lemma step_shares:
  assumes "step c h = Some h'" "shares_id_action root h"
  shows "shares_id_action root h'"
proof (cases c)
  case (CallSubContext p fs)
  then show ?thesis using assms
    by (auto simp: SubContext_def new_def split: option.splits intro!: shares_new dest: shares_nth)
next
  case (CallSubContextWithToken p t fs)
  then show ?thesis using assms
    by (auto simp: SubContextWithToken_def new_def split: option.splits intro!: shares_new dest: shares_nth)
next
  case (CallSubContextWithTokenAndUoW p t u fs)
  then show ?thesis using assms
    by (auto simp: SubContextWithTokenAndUoW_def new_def split: option.splits intro!: shares_new dest: shares_nth)
next
  case (CallSubContextWithUoW p u fs)
  then show ?thesis using assms
    by (auto simp: SubContextWithUoW_def new_def split: option.splits intro!: shares_new dest: shares_nth)
next
  case (CallAddLoggerStrFields p fs)
  then show ?thesis using assms
    by (auto simp: AddLoggerStrFields_def split: option.splits intro!: shares_update dest: shares_nth)
next
  case (CallSetUOW p u)
  then show ?thesis using assms
    by (auto simp: SetUOW_def split: option.splits intro!: shares_update dest: shares_nth)
qed

lemma run_shares:
  "run cs h = Some h' \<Longrightarrow> shares_id_action root h \<Longrightarrow> shares_id_action root h'"
proof (induction cs arbitrary: h)
  case Nil
  then show ?case by simp
next
  case (Cons c cs)
  then obtain h1 where s: "step c h = Some h1" and r: "run cs h1 = Some h'"
    by (auto split: option.splits)
  from step_shares[OF s Cons.prems(2)] have "shares_id_action root h1" .
  then show ?case using Cons.IH[OF r] by simp
qed

lemma Action_NewExecutionContext: "Action (NewExecutionContext u t cid a lg) = a"
  by (simp add: NewExecutionContext_def Let_def)

lemma derived_getters:
  assumes "deref h p = Some c" "new d h = (a, h')"
    "CorrelationID d = CorrelationID c" "Action d = Action c"
  shows "GetCorrelationID a h' = GetCorrelationID p h \<and> GetActionName a h' = GetActionName p h
       \<and> GetCorrelationID p h \<noteq> None \<and> GetActionName p h \<noteq> None"
  using assms by (auto simp: GetCorrelationID_def GetActionName_def deref_def new_def)

text \<open>
  Claim C1. Start from a store that holds one context, the root that
  \<open>NewExecutionContext\<close> returns, and perform any sequence of calls of \<open>SubContext\<close>,
  \<open>SubContextWithToken\<close>, \<open>SubContextWithTokenAndUoW\<close> and \<open>SubContextWithUoW\<close> (and of
  the two in-place operations, which change neither field). Then every context in the
  store reports the root's correlation id and the root's action. And each of the four
  derivations, called on a context of any store, returns a context that reports the
  correlation id and the action of the context it was called on.
\<close>

theorem C1_correlation_id_and_action_shared:
  "(run calls [NewExecutionContext newV4 token correlationID action lg] = Some h \<longrightarrow>
      (\<forall>r < length h.
         GetCorrelationID r h
           = Some (CorrelationID (NewExecutionContext newV4 token correlationID action lg))
       \<and> GetActionName r h = Some action))
   \<and> (SubContext p fs h0 = Some (a, h1) \<longrightarrow>
        GetCorrelationID a h1 = GetCorrelationID p h0 \<and> GetActionName a h1 = GetActionName p h0
        \<and> GetCorrelationID p h0 \<noteq> None \<and> GetActionName p h0 \<noteq> None)
   \<and> (SubContextWithToken p t fs h0 = Some (a, h1) \<longrightarrow>
        GetCorrelationID a h1 = GetCorrelationID p h0 \<and> GetActionName a h1 = GetActionName p h0
        \<and> GetCorrelationID p h0 \<noteq> None \<and> GetActionName p h0 \<noteq> None)
   \<and> (SubContextWithTokenAndUoW p t u fs h0 = Some (a, h1) \<longrightarrow>
        GetCorrelationID a h1 = GetCorrelationID p h0 \<and> GetActionName a h1 = GetActionName p h0
        \<and> GetCorrelationID p h0 \<noteq> None \<and> GetActionName p h0 \<noteq> None)
   \<and> (SubContextWithUoW p u fs h0 = Some (a, h1) \<longrightarrow>
        GetCorrelationID a h1 = GetCorrelationID p h0 \<and> GetActionName a h1 = GetActionName p h0
        \<and> GetCorrelationID p h0 \<noteq> None \<and> GetActionName p h0 \<noteq> None)"
proof (intro conjI impI allI)
  let ?root = "NewExecutionContext newV4 token correlationID action lg"
  fix r
  assume run: "run calls [?root] = Some h" and r: "r < length h"
  have "shares_id_action ?root [?root]" by (simp add: shares_id_action_def)
  from run_shares[OF run this] have "shares_id_action ?root h" .
  moreover have "deref h r = Some (h ! r)" using r by (simp add: deref_def)
  ultimately have "CorrelationID (h ! r) = CorrelationID ?root \<and> Action (h ! r) = Action ?root"
    by (rule shares_nth)
  then show "GetCorrelationID r h = Some (CorrelationID ?root)" "GetActionName r h = Some action"
    using r by (simp_all add: GetCorrelationID_def GetActionName_def deref_def Action_NewExecutionContext)
next
  assume "SubContext p fs h0 = Some (a, h1)"
  then obtain c where c: "deref h0 p = Some c"
    and n: "new \<lparr>CorrelationID = CorrelationID c, UOW = UOW c, Token = Token c,
                 Action = Action c, logger = addStrs (logger c) fs\<rparr> h0 = (a, h1)"
    by (auto simp: SubContext_def split: option.splits)
  from derived_getters[OF c n]
  show "GetCorrelationID a h1 = GetCorrelationID p h0" "GetActionName a h1 = GetActionName p h0"
    "GetCorrelationID p h0 \<noteq> None" "GetActionName p h0 \<noteq> None" by simp_all
next
  assume "SubContextWithToken p t fs h0 = Some (a, h1)"
  then obtain c where c: "deref h0 p = Some c"
    and n: "new \<lparr>CorrelationID = CorrelationID c, UOW = UOW c, Token = t,
                 Action = Action c, logger = addStrs (logger c) fs\<rparr> h0 = (a, h1)"
    by (auto simp: SubContextWithToken_def split: option.splits)
  from derived_getters[OF c n]
  show "GetCorrelationID a h1 = GetCorrelationID p h0" "GetActionName a h1 = GetActionName p h0"
    "GetCorrelationID p h0 \<noteq> None" "GetActionName p h0 \<noteq> None" by simp_all
next
  assume "SubContextWithTokenAndUoW p t u fs h0 = Some (a, h1)"
  then obtain c where c: "deref h0 p = Some c"
    and n: "new \<lparr>CorrelationID = CorrelationID c, UOW = u, Token = t,
                 Action = Action c, logger = addStrs (logger c) fs\<rparr> h0 = (a, h1)"
    by (auto simp: SubContextWithTokenAndUoW_def split: option.splits)
  from derived_getters[OF c n]
  show "GetCorrelationID a h1 = GetCorrelationID p h0" "GetActionName a h1 = GetActionName p h0"
    "GetCorrelationID p h0 \<noteq> None" "GetActionName p h0 \<noteq> None" by simp_all
next
  assume "SubContextWithUoW p u fs h0 = Some (a, h1)"
  then obtain c where c: "deref h0 p = Some c"
    and n: "new \<lparr>CorrelationID = CorrelationID c, UOW = u, Token = Token c,
                 Action = Action c, logger = addStrs (logger c) fs\<rparr> h0 = (a, h1)"
    by (auto simp: SubContextWithUoW_def split: option.splits)
  from derived_getters[OF c n]
  show "GetCorrelationID a h1 = GetCorrelationID p h0" "GetActionName a h1 = GetActionName p h0"
    "GetCorrelationID p h0 \<noteq> None" "GetActionName p h0 \<noteq> None" by simp_all
qed


text \<open>
  A root with the correlation id \<open>req-1\<close> and the action \<open>login\<close>, its child and its
  grandchild; and a child by each of the four derivations.
\<close>

lemma NewExecutionContext_plain_cid:
  "CorrelationID (NewExecutionContext 5 None ''req-1'' ''login'' \<lparr>ctxFields = []\<rparr>) = ''req-1''"
  by code_simp

theorem C1_correlation_id_and_action_shared_witness:
  "(\<exists>h. run [CallSubContext 0 [(''k'', ''v'')], CallSubContextWithUoW 1 (Some 7) []]
           [NewExecutionContext 5 None ''req-1'' ''login'' \<lparr>ctxFields = []\<rparr>] = Some h
        \<and> GetCorrelationID 2 h = Some ''req-1'' \<and> GetActionName 2 h = Some ''login'')
   \<and> (\<exists>h1. SubContext 0 [] [NewExecutionContext 5 None ''req-1'' ''login'' \<lparr>ctxFields = []\<rparr>]
               = Some (1, h1)
         \<and> SubContextWithToken 0 None [] [NewExecutionContext 5 None ''req-1'' ''login'' \<lparr>ctxFields = []\<rparr>]
               = Some (1, h1)
         \<and> SubContextWithTokenAndUoW 0 None None []
               [NewExecutionContext 5 None ''req-1'' ''login'' \<lparr>ctxFields = []\<rparr>] = Some (1, h1)
         \<and> SubContextWithUoW 0 None [] [NewExecutionContext 5 None ''req-1'' ''login'' \<lparr>ctxFields = []\<rparr>]
               = Some (1, h1)
         \<and> GetCorrelationID 1 h1 = Some ''req-1'' \<and> GetActionName 1 h1 = Some ''login'')"
proof -
  let ?root = "NewExecutionContext 5 None ''req-1'' ''login'' \<lparr>ctxFields = []\<rparr>"
  let ?calls = "[CallSubContext 0 [(''k'', ''v'')], CallSubContextWithUoW 1 (Some 7) []]"
  have tu: "Token ?root = None" "UOW ?root = None"
    by (simp_all add: NewExecutionContext_def Let_def)
  obtain h where h: "run ?calls [?root] = Some h" "length h = 3"
    by (simp add: SubContext_def SubContextWithUoW_def new_def deref_def)
  obtain h1 where h1: "SubContext 0 [] [?root] = Some (1, h1)"
    "SubContextWithToken 0 None [] [?root] = Some (1, h1)"
    "SubContextWithTokenAndUoW 0 None None [] [?root] = Some (1, h1)"
    "SubContextWithUoW 0 None [] [?root] = Some (1, h1)"
    by (simp add: SubContext_def SubContextWithToken_def SubContextWithTokenAndUoW_def
        SubContextWithUoW_def new_def deref_def tu)
  have g0: "GetCorrelationID 0 [?root] = Some ''req-1''" "GetActionName 0 [?root] = Some ''login''"
    by (simp_all add: GetCorrelationID_def GetActionName_def deref_def
        NewExecutionContext_plain_cid Action_NewExecutionContext)
  from C1_correlation_id_and_action_shared
    [of ?calls 5 None "''req-1''" "''login''" "\<lparr>ctxFields = []\<rparr>" h 0 "[]" "[?root]" 1 h1 None None]
    h h1 g0 NewExecutionContext_plain_cid
  show ?thesis by auto
qed


subsection \<open>What a call can change\<close>

text \<open>The context a call writes in place, if any.\<close>

fun writes :: "call \<Rightarrow> ref option" where
  "writes (CallAddLoggerStrFields p fs) = Some p"
| "writes (CallSetUOW p u) = Some p"
| "writes _ = None"

lemma new_frame:
  "new d h = (a, h') \<Longrightarrow>
     a = length h \<and> length h' = Suc (length h) \<and> deref h' a = Some d
     \<and> (\<forall>q < length h. deref h' q = deref h q)"
  by (auto simp: new_def deref_def nth_append)

lemma update_frame:
  "p < length h \<Longrightarrow>
     length (h[p := c]) = length h \<and> deref (h[p := c]) p = Some c
     \<and> (\<forall>q. q \<noteq> p \<longrightarrow> deref (h[p := c]) q = deref h q)"
  by (auto simp: deref_def)

lemma step_length: "step c h = Some h' \<Longrightarrow> length h \<le> length h'"
  by (cases c)
    (auto simp: SubContext_def SubContextWithToken_def SubContextWithTokenAndUoW_def
      SubContextWithUoW_def AddLoggerStrFields_def SetUOW_def new_def
      split: option.splits)

lemma step_frame:
  assumes "step c h = Some h'" "q < length h" "writes c \<noteq> Some q"
  shows "deref h' q = deref h q"
  using assms
  by (cases c)
    (auto simp: SubContext_def SubContextWithToken_def SubContextWithTokenAndUoW_def
      SubContextWithUoW_def AddLoggerStrFields_def SetUOW_def new_def deref_def nth_append
      split: option.splits if_splits)

lemma run_frame:
  "run cs h = Some h' \<Longrightarrow> q < length h \<Longrightarrow> \<forall>c \<in> set cs. writes c \<noteq> Some q
   \<Longrightarrow> deref h' q = deref h q"
proof (induction cs arbitrary: h)
  case Nil
  then show ?case by simp
next
  case (Cons c cs)
  then obtain h1 where s: "step c h = Some h1" and r: "run cs h1 = Some h'"
    by (auto split: option.splits)
  have w: "writes c \<noteq> Some q" "\<forall>c \<in> set cs. writes c \<noteq> Some q" using Cons.prems(3) by simp_all
  have "q < length h1" using step_length[OF s] Cons.prems(2) by simp
  from Cons.IH[OF r this w(2)] step_frame[OF s Cons.prems(2) w(1)] show ?case by simp
qed

text \<open>
  Claim C2. A derivation only allocates: the context it returns is at a reference that
  was not in the store before (so it is neither the parent nor any ancestor), and every
  context that was in the store, the parent among them, is unchanged in every field:
  logger, token and unit of work. \<open>AddLoggerStrFields\<close> and \<open>SetUOW\<close> change the context
  they are called on and no other, so calling them on a derived child leaves each
  ancestor as it was. Over a whole sequence of calls: a context on which neither in-place
  operation is called keeps its logger, its token and its unit of work.
\<close>

theorem C2_derivation_and_child_mutation_frame:
  "(SubContext p fs h = Some (a, h') \<longrightarrow>
      a = length h \<and> deref h' a \<noteq> None \<and> (\<forall>q < length h. deref h' q = deref h q))
   \<and> (SubContextWithToken p t fs h = Some (a, h') \<longrightarrow>
      a = length h \<and> deref h' a \<noteq> None \<and> (\<forall>q < length h. deref h' q = deref h q))
   \<and> (SubContextWithTokenAndUoW p t u fs h = Some (a, h') \<longrightarrow>
      a = length h \<and> deref h' a \<noteq> None \<and> (\<forall>q < length h. deref h' q = deref h q))
   \<and> (SubContextWithUoW p u fs h = Some (a, h') \<longrightarrow>
      a = length h \<and> deref h' a \<noteq> None \<and> (\<forall>q < length h. deref h' q = deref h q))
   \<and> (AddLoggerStrFields a fs' h' = Some k1 \<longrightarrow>
      (\<forall>q. q \<noteq> a \<longrightarrow> deref k1 q = deref h' q))
   \<and> (SetUOW a u' h' = Some k2 \<longrightarrow>
      (\<forall>q. q \<noteq> a \<longrightarrow> deref k2 q = deref h' q))
   \<and> (run cs h = Some k \<and> q < length h \<and> (\<forall>c \<in> set cs. writes c \<noteq> Some q) \<longrightarrow>
      deref k q = deref h q
      \<and> GetDefaultLogger q k = GetDefaultLogger q h
      \<and> GetToken q k = GetToken q h
      \<and> GetUOW q k = GetUOW q h)"
proof (intro conjI)
  show "SubContext p fs h = Some (a, h') \<longrightarrow>
      a = length h \<and> deref h' a \<noteq> None \<and> (\<forall>q < length h. deref h' q = deref h q)"
    by (auto simp: SubContext_def split: option.splits dest!: new_frame)
  show "SubContextWithToken p t fs h = Some (a, h') \<longrightarrow>
      a = length h \<and> deref h' a \<noteq> None \<and> (\<forall>q < length h. deref h' q = deref h q)"
    by (auto simp: SubContextWithToken_def split: option.splits dest!: new_frame)
  show "SubContextWithTokenAndUoW p t u fs h = Some (a, h') \<longrightarrow>
      a = length h \<and> deref h' a \<noteq> None \<and> (\<forall>q < length h. deref h' q = deref h q)"
    by (auto simp: SubContextWithTokenAndUoW_def split: option.splits dest!: new_frame)
  show "SubContextWithUoW p u fs h = Some (a, h') \<longrightarrow>
      a = length h \<and> deref h' a \<noteq> None \<and> (\<forall>q < length h. deref h' q = deref h q)"
    by (auto simp: SubContextWithUoW_def split: option.splits dest!: new_frame)
  show "AddLoggerStrFields a fs' h' = Some k1 \<longrightarrow>
      (\<forall>q. q \<noteq> a \<longrightarrow> deref k1 q = deref h' q)"
    by (auto simp: AddLoggerStrFields_def deref_def split: option.splits if_splits)
  show "SetUOW a u' h' = Some k2 \<longrightarrow> (\<forall>q. q \<noteq> a \<longrightarrow> deref k2 q = deref h' q)"
    by (auto simp: SetUOW_def deref_def split: option.splits if_splits)
  show "run cs h = Some k \<and> q < length h \<and> (\<forall>c \<in> set cs. writes c \<noteq> Some q) \<longrightarrow>
      deref k q = deref h q
      \<and> GetDefaultLogger q k = GetDefaultLogger q h
      \<and> GetToken q k = GetToken q h
      \<and> GetUOW q k = GetUOW q h"
    using run_frame[of cs h k q]
    by (simp add: GetDefaultLogger_def GetToken_def GetUOW_def)
qed


text \<open>
  A root, a child by each derivation, and both in-place operations on the child: the
  child changes, the root does not.
\<close>

definition example_root :: executionContextImpl where
  "example_root =
     \<lparr>CorrelationID = ''req-1'', UOW = None, Token = None, Action = ''login'',
      logger = \<lparr>ctxFields = [FStr ''action'' ''login'']\<rparr>\<rparr>"

theorem C2_derivation_and_child_mutation_frame_witness:
  "(\<exists>h1 k1 k2.
       SubContext 0 [] [example_root] = Some (1, h1)
     \<and> SubContextWithToken 0 None [] [example_root] = Some (1, h1)
     \<and> SubContextWithTokenAndUoW 0 None None [] [example_root] = Some (1, h1)
     \<and> SubContextWithUoW 0 None [] [example_root] = Some (1, h1)
     \<and> deref h1 0 = Some example_root
     \<and> AddLoggerStrFields 1 [(''k'', ''v'')] h1 = Some k1
     \<and> GetDefaultLogger 1 k1 = Some \<lparr>ctxFields = [FStr ''action'' ''login'', FStr ''k'' ''v'']\<rparr>
     \<and> deref k1 0 = Some example_root
     \<and> SetUOW 1 (Some 9) h1 = Some k2
     \<and> GetUOW 1 k2 = Some (Some 9)
     \<and> deref k2 0 = Some example_root)
   \<and> (\<exists>k. run [CallSubContext 0 [], CallAddLoggerStrFields 1 [(''k'', ''v'')], CallSetUOW 1 (Some 9)]
              [example_root] = Some k
          \<and> deref k 0 = Some example_root
          \<and> GetDefaultLogger 0 k = Some \<lparr>ctxFields = [FStr ''action'' ''login'']\<rparr>
          \<and> GetToken 0 k = Some None
          \<and> GetUOW 0 k = Some None)"
proof -
  let ?cs = "[CallSubContext 0 [], CallAddLoggerStrFields 1 [(''k'', ''v'')], CallSetUOW 1 (Some 9)]"
  have tu: "Token example_root = None" "UOW example_root = None"
    by (simp_all add: example_root_def)
  obtain h1 where h1: "SubContext 0 [] [example_root] = Some (1, h1)"
    "SubContextWithToken 0 None [] [example_root] = Some (1, h1)"
    "SubContextWithTokenAndUoW 0 None None [] [example_root] = Some (1, h1)"
    "SubContextWithUoW 0 None [] [example_root] = Some (1, h1)"
    by (simp add: SubContext_def SubContextWithToken_def SubContextWithTokenAndUoW_def
        SubContextWithUoW_def new_def deref_def tu)
  have h1_eq: "h1 = [example_root, example_root]"
    using h1(1) by (simp add: SubContext_def new_def deref_def addStrs_def example_root_def)
  obtain k1 where k1: "AddLoggerStrFields 1 [(''k'', ''v'')] h1 = Some k1"
    by (simp add: h1_eq AddLoggerStrFields_def deref_def)
  have l1: "GetDefaultLogger 1 k1 = Some \<lparr>ctxFields = [FStr ''action'' ''login'', FStr ''k'' ''v'']\<rparr>"
    using k1 by (auto simp: h1_eq AddLoggerStrFields_def GetDefaultLogger_def deref_def
        addStrs_def ctxStr_def example_root_def)
  obtain k2 where k2: "SetUOW 1 (Some 9) h1 = Some k2"
    by (simp add: h1_eq SetUOW_def deref_def)
  have u2: "GetUOW 1 k2 = Some (Some 9)"
    using k2 by (auto simp: h1_eq SetUOW_def GetUOW_def deref_def)
  obtain k where k: "run ?cs [example_root] = Some k"
    by (simp add: SubContext_def AddLoggerStrFields_def SetUOW_def new_def deref_def)
  have d0: "deref [example_root] 0 = Some example_root"
    by (simp add: deref_def)
  have g0: "GetDefaultLogger 0 [example_root] = Some \<lparr>ctxFields = [FStr ''action'' ''login'']\<rparr>"
    "GetToken 0 [example_root] = Some None" "GetUOW 0 [example_root] = Some None"
    by (simp_all add: GetDefaultLogger_def GetToken_def GetUOW_def deref_def example_root_def)
  from C2_derivation_and_child_mutation_frame
    [where p = 0 and fs = "[]" and h = "[example_root]" and a = 1 and h' = h1 and t = None
      and u = None and fs' = "[(''k'', ''v'')]" and ?k1.0 = k1 and u' = "Some 9" and ?k2.0 = k2
      and cs = ?cs and k = k and q = 0]
    h1 k1 k2 k l1 u2 d0 g0
  show ?thesis by auto
qed


subsection \<open>The root context\<close>

lemma UUID_String_nonempty: "UUID_String u \<noteq> []"
  using length_UUID_String[of u] by auto

lemma CorrelationID_NewExecutionContext:
  "CorrelationID (NewExecutionContext newV4 token correlationID action lg)
     = (if whitespace_only correlationID then UUID_String newV4 else correlationID)"
  by (simp add: NewExecutionContext_def Let_def TrimSpace_blank_iff[symmetric])

lemma logger_NewExecutionContext_Some:
  "ctxFields (logger (NewExecutionContext newV4 (Some t) correlationID action lg))
     = ctxFields lg @
       [FStr ''tenantId'' (UUID_String (TenantID t)),
        FStr ''userId'' (UUID_String (UserID t)),
        FStr ''username'' (UserName t),
        FStr ''tenantName'' (TenantName t),
        FStr ''userDisplayName'' (DisplayName t),
        FStr ''action'' action,
        FStr ''correlationId''
          (CorrelationID (NewExecutionContext newV4 (Some t) correlationID action lg))]"
  by (simp add: NewExecutionContext_def Let_def addStrs_def ctxStr_def)

lemma logger_NewExecutionContext_None:
  "ctxFields (logger (NewExecutionContext newV4 None correlationID action lg))
     = ctxFields lg @
       [FStr ''action'' action,
        FStr ''correlationId''
          (CorrelationID (NewExecutionContext newV4 None correlationID action lg))]"
  by (simp add: NewExecutionContext_def Let_def addStrs_def ctxStr_def)

text \<open>
  Claim C3. The correlation id of the context \<open>NewExecutionContext\<close> returns is the one
  it was given, unless that is empty or white space only: then it is the string of the
  UUID drawn from \<^verbatim>\<open>uuid.NewV4()\<close>, which has 36 characters (so it is not empty), and two
  calls that draw different UUIDs get different correlation ids. With a token, the fields
  added to the logger are, in this order, tenant id, user id, user name, tenant name,
  display name, action and correlation id; without a token they are action and
  correlation id and nothing else.
\<close>

theorem C3_NewExecutionContext_correlation_id_and_logger:
  "CorrelationID (NewExecutionContext newV4 token correlationID action lg)
     = (if whitespace_only correlationID then UUID_String newV4 else correlationID)
   \<and> (whitespace_only correlationID \<longrightarrow>
        CorrelationID (NewExecutionContext newV4 token correlationID action lg) \<noteq> []
      \<and> length (CorrelationID (NewExecutionContext newV4 token correlationID action lg)) = 36
      \<and> (whitespace_only correlationID' \<and> newV4' \<noteq> newV4 \<longrightarrow>
           CorrelationID (NewExecutionContext newV4' token' correlationID' action' lg')
             \<noteq> CorrelationID (NewExecutionContext newV4 token correlationID action lg)))
   \<and> (token = Some t \<longrightarrow>
        ctxFields (logger (NewExecutionContext newV4 token correlationID action lg))
          = ctxFields lg @
            [FStr ''tenantId'' (UUID_String (TenantID t)),
             FStr ''userId'' (UUID_String (UserID t)),
             FStr ''username'' (UserName t),
             FStr ''tenantName'' (TenantName t),
             FStr ''userDisplayName'' (DisplayName t),
             FStr ''action'' action,
             FStr ''correlationId''
               (CorrelationID (NewExecutionContext newV4 token correlationID action lg))])
   \<and> (token = None \<longrightarrow>
        ctxFields (logger (NewExecutionContext newV4 token correlationID action lg))
          = ctxFields lg @
            [FStr ''action'' action,
             FStr ''correlationId''
               (CorrelationID (NewExecutionContext newV4 token correlationID action lg))])"
proof (intro conjI impI)
  show "CorrelationID (NewExecutionContext newV4 token correlationID action lg)
     = (if whitespace_only correlationID then UUID_String newV4 else correlationID)"
    by (rule CorrelationID_NewExecutionContext)
next
  assume "whitespace_only correlationID"
  then show "CorrelationID (NewExecutionContext newV4 token correlationID action lg) \<noteq> []"
    by (simp add: CorrelationID_NewExecutionContext UUID_String_nonempty)
next
  assume "whitespace_only correlationID"
  then show "length (CorrelationID (NewExecutionContext newV4 token correlationID action lg)) = 36"
    by (simp add: CorrelationID_NewExecutionContext length_UUID_String)
next
  assume "whitespace_only correlationID" "whitespace_only correlationID' \<and> newV4' \<noteq> newV4"
  then show "CorrelationID (NewExecutionContext newV4' token' correlationID' action' lg')
             \<noteq> CorrelationID (NewExecutionContext newV4 token correlationID action lg)"
    using UUID_String_inj[of newV4' newV4] by (auto simp: CorrelationID_NewExecutionContext)
next
  assume "token = Some t"
  then show "ctxFields (logger (NewExecutionContext newV4 token correlationID action lg))
          = ctxFields lg @
            [FStr ''tenantId'' (UUID_String (TenantID t)),
             FStr ''userId'' (UUID_String (UserID t)),
             FStr ''username'' (UserName t),
             FStr ''tenantName'' (TenantName t),
             FStr ''userDisplayName'' (DisplayName t),
             FStr ''action'' action,
             FStr ''correlationId''
               (CorrelationID (NewExecutionContext newV4 token correlationID action lg))]"
    by (simp add: logger_NewExecutionContext_Some)
next
  assume "token = None"
  then show "ctxFields (logger (NewExecutionContext newV4 token correlationID action lg))
          = ctxFields lg @
            [FStr ''action'' action,
             FStr ''correlationId''
               (CorrelationID (NewExecutionContext newV4 token correlationID action lg))]"
    by (simp add: logger_NewExecutionContext_None)
qed

text \<open>
  Two roots without a token, one given a correlation id of white space only (a space, a
  tab and a no-break space) and one given none, drawing different UUIDs; and a root with
  a token and a correlation id of its own.
\<close>

lemma UUID_String_example:
  "UUID_String 0x6ba7b8109dad11d180b400c04fd430c8 = ''6ba7b810-9dad-11d1-80b4-00c04fd430c8''"
  by code_simp

lemma whitespace_only_example: "whitespace_only [CHR 0x20, CHR 0x09, CHR 0xC2, CHR 0xA0]"
proof -
  have "length (TrimSpace [CHR 0x20, CHR 0x09, CHR 0xC2, CHR 0xA0]) = 0" by code_simp
  then show ?thesis using TrimSpace_blank_iff[of "[CHR 0x20, CHR 0x09, CHR 0xC2, CHR 0xA0]"] by blast
qed

lemma whitespace_only_empty: "whitespace_only ''''"
  by (rule ws_empty)

lemma not_whitespace_only_example: "\<not> whitespace_only ''req-1''"
proof -
  have "length (TrimSpace ''req-1'') \<noteq> 0" by code_simp
  then show ?thesis using TrimSpace_blank_iff[of "''req-1''"] by blast
qed

definition example_token :: JwtToken where
  "example_token =
     \<lparr>Admin = False, TenantID = 1, UserID = 2, UserName = ''ann'', TenantName = ''acme'',
      DisplayName = ''Ann'', Raw = ''''\<rparr>"

lemma UUID_String_1: "UUID_String 1 = ''00000000-0000-0000-0000-000000000001''"
  by code_simp

lemma UUID_String_2: "UUID_String 2 = ''00000000-0000-0000-0000-000000000002''"
  by code_simp

theorem C3_NewExecutionContext_correlation_id_and_logger_witness:
  "CorrelationID (NewExecutionContext 0x6ba7b8109dad11d180b400c04fd430c8 None
       [CHR 0x20, CHR 0x09, CHR 0xC2, CHR 0xA0] ''a'' \<lparr>ctxFields = []\<rparr>)
     = ''6ba7b810-9dad-11d1-80b4-00c04fd430c8''
   \<and> CorrelationID (NewExecutionContext 1 None '''' ''a'' \<lparr>ctxFields = []\<rparr>)
     \<noteq> CorrelationID (NewExecutionContext 0x6ba7b8109dad11d180b400c04fd430c8 None
          [CHR 0x20, CHR 0x09, CHR 0xC2, CHR 0xA0] ''a'' \<lparr>ctxFields = []\<rparr>)
   \<and> ctxFields (logger (NewExecutionContext 0x6ba7b8109dad11d180b400c04fd430c8 None
       [CHR 0x20, CHR 0x09, CHR 0xC2, CHR 0xA0] ''a'' \<lparr>ctxFields = []\<rparr>))
     = [FStr ''action'' ''a'', FStr ''correlationId'' ''6ba7b810-9dad-11d1-80b4-00c04fd430c8'']
   \<and> ctxFields (logger (NewExecutionContext 5 (Some example_token) ''req-1'' ''a''
       \<lparr>ctxFields = []\<rparr>))
     = [FStr ''tenantId'' ''00000000-0000-0000-0000-000000000001'',
        FStr ''userId'' ''00000000-0000-0000-0000-000000000002'',
        FStr ''username'' ''ann'', FStr ''tenantName'' ''acme'', FStr ''userDisplayName'' ''Ann'',
        FStr ''action'' ''a'', FStr ''correlationId'' ''req-1'']"
proof -
  let ?u = "0x6ba7b8109dad11d180b400c04fd430c8 :: UUID"
  let ?ws = "[CHR 0x20, CHR 0x09, CHR 0xC2, CHR 0xA0]"
  have ne: "(1 :: UUID) \<noteq> ?u" by simp
  note T = C3_NewExecutionContext_correlation_id_and_logger
    [where ?newV4.0 = ?u and token = None and correlationID = ?ws and action = "''a''"
      and lg = "\<lparr>ctxFields = []\<rparr>" and correlationID' = "''''" and newV4' = 1
      and token' = None and action' = "''a''" and lg' = "\<lparr>ctxFields = []\<rparr>"]
  have a1: "CorrelationID (NewExecutionContext ?u None ?ws ''a'' \<lparr>ctxFields = []\<rparr>)
        = ''6ba7b810-9dad-11d1-80b4-00c04fd430c8''"
    using T whitespace_only_example UUID_String_example by simp
  have a2: "CorrelationID (NewExecutionContext 1 None '''' ''a'' \<lparr>ctxFields = []\<rparr>)
       \<noteq> CorrelationID (NewExecutionContext ?u None ?ws ''a'' \<lparr>ctxFields = []\<rparr>)"
    using T whitespace_only_example whitespace_only_empty ne by blast
  have a3: "ctxFields (logger (NewExecutionContext ?u None ?ws ''a'' \<lparr>ctxFields = []\<rparr>))
       = [FStr ''action'' ''a'', FStr ''correlationId'' ''6ba7b810-9dad-11d1-80b4-00c04fd430c8'']"
    using T a1 by simp
  note a = a1 a2 a3
  from C3_NewExecutionContext_correlation_id_and_logger
    [where ?newV4.0 = 5 and token = "Some example_token" and t = example_token
      and correlationID = "''req-1''" and action = "''a''" and lg = "\<lparr>ctxFields = []\<rparr>"]
    not_whitespace_only_example UUID_String_1 UUID_String_2
  have b: "ctxFields (logger (NewExecutionContext 5 (Some example_token) ''req-1'' ''a''
       \<lparr>ctxFields = []\<rparr>))
     = [FStr ''tenantId'' ''00000000-0000-0000-0000-000000000001'',
        FStr ''userId'' ''00000000-0000-0000-0000-000000000002'',
        FStr ''username'' ''ann'', FStr ''tenantName'' ''acme'', FStr ''userDisplayName'' ''Ann'',
        FStr ''action'' ''a'', FStr ''correlationId'' ''req-1'']"
    by (simp add: example_token_def)
  from a b show ?thesis by simp
qed

subsection \<open>Logging a validation error\<close>

text \<open>
  Claim C4. For a validation error \<open>LogError\<close> emits exactly one line: at the
  informational level, with the event type and the event code of a validation error
  after the context's own fields, and with the fixed invalid-input message. The line
  is the same whatever message the caller passes.
\<close>

theorem C4_validation_error_fixed_line:
  "LogError K c (ValidationError txt) errorMessage =
     [\<lparr>level = InfoLevel,
       lineFields = ctxFields (logger c) @
         [FStr ''eventType'' (EventTypeValidationErr K),
          FStr ''eventCode'' (EventCodeInvalidData K),
          FErr txt],
       message = MessageInvalidInputData K\<rparr>]
   \<and> LogError K c (ValidationError txt) errorMessage
     = LogError K c (ValidationError txt) errorMessage'"
  by (simp add: Msg_def ctxLogger_def addStrs_def ctxStr_def)



section \<open>Properties of the application\<close>

subsection \<open>Stopping\<close>

lemma two_minutes: "2 * Minute = (120000000000 :: Duration)"
  by (simp add: Minute_def Second_def)

lemma Contains_iff: "Contains s substr \<longleftrightarrow> (\<exists>pre post. s = pre @ substr @ post)"
proof (induction s)
  case Nil
  then show ?case by auto
next
  case (Cons c cs)
  show ?case
  proof
    assume "Contains (c # cs) substr"
    then consider "prefix substr (c # cs)" | "Contains cs substr" by auto
    then show "\<exists>pre post. c # cs = pre @ substr @ post"
    proof cases
      case 1
      then obtain post where "c # cs = substr @ post" by (auto simp: prefix_def)
      then have "c # cs = [] @ substr @ post" by simp
      then show ?thesis by blast
    next
      case 2
      then obtain pre post where "cs = pre @ substr @ post" using Cons.IH by blast
      then have "c # cs = (c # pre) @ substr @ post" by simp
      then show ?thesis by blast
    qed
  next
    assume "\<exists>pre post. c # cs = pre @ substr @ post"
    then obtain pre post where e: "c # cs = pre @ substr @ post" by blast
    show "Contains (c # cs) substr"
    proof (cases pre)
      case Nil
      then have "prefix substr (c # cs)" using e by (simp add: prefix_def)
      then show ?thesis by simp
    next
      case (Cons p ps)
      then have "cs = ps @ substr @ post" using e by simp
      then have "Contains cs substr" using Cons.IH by blast
      then show ?thesis by simp
    qed
  qed
qed

text \<open>
  Claim C5. \<open>Stop\<close> first asks the server to shut down, with a wait of two minutes
  (120 seconds, in nanoseconds). After that it calls \<^verbatim>\<open>Close\<close> on the pool handle exactly
  when the database is required and \<^verbatim>\<open>app.DB.DB()\<close> returned an error, and the handle it
  closes is the one that call returned. When the handle is obtained without an error, or
  the database is not required, \<^verbatim>\<open>Close\<close> is not called.
\<close>

theorem C5_Stop_closes_only_when_handle_fails:
  "(server app = Some srv \<longrightarrow>
      fst (Stop app)
        = Shutdown 120000000000
          # (case DB app of
               None \<Rightarrow> []
             | Some gdb \<Rightarrow>
                 (case DB_result gdb of
                    (sqlDB, None) \<Rightarrow> []
                  | (sqlDB, Some e) \<Rightarrow>
                      if GetBool (Config app) ''DB_REQUIRED'' then [SqlClose sqlDB] else [])))
   \<and> (SqlClose x \<in> set (fst (Stop app)) \<longleftrightarrow>
        server app \<noteq> None \<and> GetBool (Config app) ''DB_REQUIRED''
        \<and> (\<exists>gdb e. DB app = Some gdb \<and> DB_result gdb = (x, Some e)))
   \<and> (DB app = Some gdb \<and> DB_result gdb = (sqlDB, None) \<longrightarrow>
        (\<forall>y. SqlClose y \<notin> set (fst (Stop app))))
   \<and> (\<not> GetBool (Config app) ''DB_REQUIRED'' \<longrightarrow>
        (\<forall>y. SqlClose y \<notin> set (fst (Stop app))))"
  by (auto simp: Stop_def Let_def two_minutes split: option.splits prod.splits)

text \<open>
  An application that requires the database and serves over TLS, with a server, and the
  database handle given.
\<close>

definition example_config :: Config where
  "example_config =
     \<lparr>GetString = (\<lambda>k. if k = ''ENABLE_TLS'' then ''true''
                        else if k = ''TLS_CRT'' then ''/etc/tls/server.crt''
                        else if k = ''TLS_KEY'' then ''/etc/tls/server.key''
                        else []),
      GetBool = (\<lambda>k. k = ''DB_REQUIRED''),
      GetInt = (\<lambda>k. 5)\<rparr>"

definition example_server :: Server where
  "example_server =
     \<lparr>Addr = ''0.0.0.0:80'', WriteTimeout = 0, ReadTimeout = 0, IdleTimeout = 0\<rparr>"

definition example_app :: "gorm_DB option \<Rightarrow> App" where
  "example_app gdb =
     \<lparr>Name = ''svc'', Config = example_config, DB = gdb, server = Some example_server,
      log = \<lparr>ctxFields = []\<rparr>\<rparr>"

theorem C5_Stop_closes_only_when_handle_fails_witness:
  "fst (Stop (example_app (Some \<lparr>DB_result = (Some 4, Some (ErrorString ''invalid db''))\<rparr>)))
     = [Shutdown 120000000000, SqlClose (Some 4)]
   \<and> fst (Stop (example_app (Some \<lparr>DB_result = (Some 4, None)\<rparr>))) = [Shutdown 120000000000]
   \<and> SqlClose (Some 4) \<notin> set (fst (Stop (example_app (Some \<lparr>DB_result = (Some 4, None)\<rparr>))))"
proof -
  let ?bad = "example_app (Some \<lparr>DB_result = (Some 4, Some (ErrorString ''invalid db''))\<rparr>)"
  let ?ok = "example_app (Some \<lparr>DB_result = (Some 4, None)\<rparr>)"
  have f: "server ?bad = Some example_server" "GetBool (Config ?bad) ''DB_REQUIRED''"
    "DB ?bad = Some \<lparr>DB_result = (Some 4, Some (ErrorString ''invalid db''))\<rparr>"
    "server ?ok = Some example_server" "GetBool (Config ?ok) ''DB_REQUIRED''"
    "DB ?ok = Some \<lparr>DB_result = (Some 4, None)\<rparr>"
    by (simp_all add: example_app_def example_config_def)
  from C5_Stop_closes_only_when_handle_fails[where app = ?bad and srv = example_server] f
  have a: "fst (Stop ?bad) = [Shutdown 120000000000, SqlClose (Some 4)]" by simp
  from C5_Stop_closes_only_when_handle_fails
    [where app = ?ok and srv = example_server and gdb = "\<lparr>DB_result = (Some 4, None)\<rparr>"
      and sqlDB = "Some 4"] f
  have b: "fst (Stop ?ok) = [Shutdown 120000000000]"
    "SqlClose (Some 4) \<notin> set (fst (Stop ?ok))" by simp_all
  from a b show ?thesis by simp
qed

subsection \<open>Serving\<close>

text \<open>
  Claim C6. The claim holds on the plain path and for the check of the certificate and key
  paths, see \<open>Start_fatal_conditions\<close> below. It fails on the TLS path: there every
  error of the listener is fatal, the clean \<^verbatim>\<open>http.ErrServerClosed\<close> that follows
  \<^verbatim>\<open>Shutdown\<close> included. With TLS enabled and both paths set, a listener that stops with
  \<^verbatim>\<open>http.ErrServerClosed\<close> makes \<open>Start\<close> write a fatal line and exit the process.
\<close>

theorem C6_TLS_server_closed_is_fatal:
  "Start (example_app None) (Some ErrServerClosed)
     = ([ListenAndServeTLS ''/etc/tls/server.crt'' ''/etc/tls/server.key'',
         Log \<lparr>level = FatalLevel, lineFields = [FErr ''http: Server closed''],
              message = ''Unable to start server or server stopped, exiting the application!''\<rparr>],
        Exits)"
  by (simp add: Start_def StartSecure_def example_app_def example_config_def Msg_def)

text \<open>
  When \<open>Start\<close> is fatal. Plain path: exactly on a listener error other than
  \<^verbatim>\<open>http.ErrServerClosed\<close>. TLS enabled with an empty certificate or key path: always,
  and before any listening. TLS enabled with both paths: on every listener error.
\<close>

lemma Start_fatal_conditions:
  "(GetString (Config app) ''ENABLE_TLS'' \<noteq> ''true'' \<and> server app \<noteq> None \<longrightarrow>
      (snd (Start app listen) = Exits \<longleftrightarrow> (\<exists>e. listen = Some e \<and> e \<noteq> ErrServerClosed))
    \<and> (listen = Some ErrServerClosed \<or> listen = None \<longrightarrow>
          Start app listen = ([ListenAndServe], Returns ())))
   \<and> (GetString (Config app) ''ENABLE_TLS'' = ''true''
        \<and> (GetString (Config app) ''TLS_CRT'' = [] \<or> GetString (Config app) ''TLS_KEY'' = []) \<longrightarrow>
      snd (Start app listen) = Exits
    \<and> (\<forall>c k. ListenAndServeTLS c k \<notin> set (fst (Start app listen)))
    \<and> ListenAndServe \<notin> set (fst (Start app listen)))
   \<and> (GetString (Config app) ''ENABLE_TLS'' = ''true''
        \<and> GetString (Config app) ''TLS_CRT'' \<noteq> [] \<and> GetString (Config app) ''TLS_KEY'' \<noteq> []
        \<and> server app \<noteq> None \<longrightarrow>
      (snd (Start app listen) = Exits \<longleftrightarrow> listen \<noteq> None)
    \<and> hd (fst (Start app listen))
        = ListenAndServeTLS (GetString (Config app) ''TLS_CRT'') (GetString (Config app) ''TLS_KEY''))"
proof (intro conjI impI)
  assume "GetString (Config app) ''ENABLE_TLS'' \<noteq> ''true'' \<and> server app \<noteq> None"
  then show "snd (Start app listen) = Exits \<longleftrightarrow> (\<exists>e. listen = Some e \<and> e \<noteq> ErrServerClosed)"
    by (auto simp: Start_def split: option.splits)
next
  assume "GetString (Config app) ''ENABLE_TLS'' \<noteq> ''true'' \<and> server app \<noteq> None"
    and "listen = Some ErrServerClosed \<or> listen = None"
  then show "Start app listen = ([ListenAndServe], Returns ())"
    by (auto simp: Start_def split: option.splits)
next
  assume a: "GetString (Config app) ''ENABLE_TLS'' = ''true''
        \<and> (GetString (Config app) ''TLS_CRT'' = [] \<or> GetString (Config app) ''TLS_KEY'' = [])"
  then show "snd (Start app listen) = Exits"
    by (auto simp: Start_def StartSecure_def)
  from a show "\<forall>c k. ListenAndServeTLS c k \<notin> set (fst (Start app listen))"
    by (auto simp: Start_def StartSecure_def)
  from a show "ListenAndServe \<notin> set (fst (Start app listen))"
    by (auto simp: Start_def StartSecure_def)
next
  assume a: "GetString (Config app) ''ENABLE_TLS'' = ''true''
        \<and> GetString (Config app) ''TLS_CRT'' \<noteq> [] \<and> GetString (Config app) ''TLS_KEY'' \<noteq> []
        \<and> server app \<noteq> None"
  then show "snd (Start app listen) = Exits \<longleftrightarrow> listen \<noteq> None"
    by (auto simp: Start_def StartSecure_def split: option.splits)
  from a show "hd (fst (Start app listen))
        = ListenAndServeTLS (GetString (Config app) ''TLS_CRT'') (GetString (Config app) ''TLS_KEY'')"
    by (auto simp: Start_def StartSecure_def split: option.splits)
qed

subsection \<open>One attempt of the database bootstrap\<close>

text \<open>The substring relation, in the words of the specification.\<close>

definition occurs_in :: "string \<Rightarrow> string \<Rightarrow> bool" where
  "occurs_in substr s = (\<exists>pre post. s = pre @ substr @ post)"

lemma connect_result:
  assumes "sql_Open_result env = (Some h, oe)" "gorm_Open_result env = (db', err')"
  shows "snd (connect X app env db)
       = Returns (case err' of
                    None \<Rightarrow> Some (retry_Stop None)
                  | Some e \<Rightarrow>
                      if Contains (Error_of e) ''connection refused'' then Some (Plain e)
                      else Some (retry_Stop (Some e)),
                  db')"
  using assms by (simp add: connect_def Let_def split: option.splits)

lemma connect_panics:
  assumes "sql_Open_result env = (None, oe)"
  shows "snd (connect X app env db) = Panics"
  using assms by (simp add: connect_def Let_def split: option.splits)

text \<open>
  Claim C7. Let an attempt get a pool handle, so that it reaches \<^verbatim>\<open>gorm.Open\<close>, and let
  \<^verbatim>\<open>gorm.Open\<close> return \<open>(db', err')\<close>. The attempt returns the plain error \<open>e\<close> exactly
  when \<open>err'\<close> is \<open>e\<close> and the text of \<open>e\<close> contains \<open>connection refused\<close>. In every other
  case, success (\<open>err'\<close> is \<^verbatim>\<open>nil\<close>) included, it returns \<^verbatim>\<open>retry.Stop\<close> carrying \<open>err'\<close>.
  And whatever the world answers, an attempt that returns does so in one of these two
  ways: a plain error is always a connection-refused error of \<^verbatim>\<open>gorm.Open\<close>.
\<close>

theorem C7_only_connection_refused_is_retryable:
  "(sql_Open_result env = (Some h, oe) \<and> gorm_Open_result env = (db', err') \<longrightarrow>
      (snd (connect X app env db) = Returns (Some (Plain e), db')
         \<longleftrightarrow> err' = Some e \<and> occurs_in ''connection refused'' (Error_of e))
    \<and> (\<not> (\<exists>e'. err' = Some e' \<and> occurs_in ''connection refused'' (Error_of e')) \<longrightarrow>
          snd (connect X app env db) = Returns (Some (retry_Stop err'), db'))
    \<and> (err' = None \<longrightarrow> snd (connect X app env db) = Returns (Some (retry_Stop None), db')))
   \<and> (\<forall>r d. snd (connect X app env db) = Returns (r, d) \<longrightarrow>
         (\<exists>e'. r = Some (Plain e') \<and> gorm_Open_result env = (d, Some e')
                \<and> occurs_in ''connection refused'' (Error_of e'))
       \<or> (\<exists>err'. r = Some (retry_Stop err') \<and> gorm_Open_result env = (d, err')
                \<and> \<not> (\<exists>e'. err' = Some e' \<and> occurs_in ''connection refused'' (Error_of e'))))"
proof (intro conjI impI allI)
  assume a: "sql_Open_result env = (Some h, oe) \<and> gorm_Open_result env = (db', err')"
  then have r: "snd (connect X app env db)
       = Returns (case err' of
                    None \<Rightarrow> Some (retry_Stop None)
                  | Some e \<Rightarrow>
                      if Contains (Error_of e) ''connection refused'' then Some (Plain e)
                      else Some (retry_Stop (Some e)),
                  db')"
    using connect_result by blast
  show "snd (connect X app env db) = Returns (Some (Plain e), db')
         \<longleftrightarrow> err' = Some e \<and> occurs_in ''connection refused'' (Error_of e)"
    unfolding r occurs_in_def Contains_iff[symmetric] by (cases err') auto
  show "snd (connect X app env db) = Returns (Some (retry_Stop err'), db')"
    if "\<not> (\<exists>e'. err' = Some e' \<and> occurs_in ''connection refused'' (Error_of e'))"
    using that unfolding r occurs_in_def Contains_iff[symmetric] by (cases err') auto
  show "snd (connect X app env db) = Returns (Some (retry_Stop None), db')" if "err' = None"
    using that unfolding r by simp
next
  fix r d
  assume ret: "snd (connect X app env db) = Returns (r, d)"
  obtain sqlDB oe where s: "sql_Open_result env = (sqlDB, oe)" by (cases "sql_Open_result env")
  obtain db' err' where g: "gorm_Open_result env = (db', err')" by (cases "gorm_Open_result env")
  have "sqlDB \<noteq> None" using ret connect_panics[of env oe X app db] s by auto
  then obtain h where "sqlDB = Some h" by auto
  from connect_result[OF s[unfolded this] g, of X app db] ret
  have "(r, d) = (case err' of
                    None \<Rightarrow> Some (retry_Stop None)
                  | Some e \<Rightarrow>
                      if Contains (Error_of e) ''connection refused'' then Some (Plain e)
                      else Some (retry_Stop (Some e)),
                  db')" by simp
  then show "(\<exists>e'. r = Some (Plain e') \<and> gorm_Open_result env = (d, Some e')
                \<and> occurs_in ''connection refused'' (Error_of e'))
       \<or> (\<exists>err'. r = Some (retry_Stop err') \<and> gorm_Open_result env = (d, err')
                \<and> \<not> (\<exists>e'. err' = Some e' \<and> occurs_in ''connection refused'' (Error_of e')))"
    unfolding occurs_in_def Contains_iff[symmetric] using g
    by (cases err') (auto split: if_splits)
qed

lemma Contains_refused_example:
  "Contains ''dial tcp 127.0.0.1:3306: connect: connection refused'' ''connection refused''"
  by code_simp

lemma Contains_denied_example:
  "\<not> Contains ''Error 1045: Access denied for user'' ''connection refused''"
  by code_simp

text \<open>
  Three attempts: the database refuses the connection, the database denies access, the
  database accepts.
\<close>

definition example_externals :: externals where
  "example_externals =
     \<lparr>EvSuffixForDBRequired = ''DB_REQUIRED'',
      EvSuffixForDBLogLevel = ''DB_LOG_LEVEL'',
      EvSuffixForLogLevel = ''LOG_LEVEL'',
      EvSuffixForDBConnectionLifetime = ''DB_CONN_LIFETIME'',
      EvSuffixForDBMaxIdleConnections = ''DB_MAX_IDLE_CONNS'',
      ToLower = (\<lambda>s. s)\<rparr>"

definition refused_env :: attempt_env where
  "refused_env =
     \<lparr>sql_Open_result = (Some 1, None),
      gorm_Open_result =
        (None, Some (ErrorString ''dial tcp 127.0.0.1:3306: connect: connection refused''))\<rparr>"

definition denied_env :: attempt_env where
  "denied_env =
     \<lparr>sql_Open_result = (Some 1, None),
      gorm_Open_result = (None, Some (ErrorString ''Error 1045: Access denied for user''))\<rparr>"

definition connected_env :: attempt_env where
  "connected_env =
     \<lparr>sql_Open_result = (Some 1, None),
      gorm_Open_result = (Some \<lparr>DB_result = (Some 1, None)\<rparr>, None)\<rparr>"

theorem C7_only_connection_refused_is_retryable_witness:
  "snd (connect example_externals (example_app None) refused_env None)
     = Returns (Some (Plain (ErrorString ''dial tcp 127.0.0.1:3306: connect: connection refused'')),
                None)
   \<and> snd (connect example_externals (example_app None) denied_env None)
     = Returns (Some (retry_Stop (Some (ErrorString ''Error 1045: Access denied for user''))),
                None)
   \<and> snd (connect example_externals (example_app None) connected_env None)
     = Returns (Some (retry_Stop None), Some \<lparr>DB_result = (Some 1, None)\<rparr>)"
proof -
  let ?refused = "ErrorString ''dial tcp 127.0.0.1:3306: connect: connection refused''"
  let ?denied = "ErrorString ''Error 1045: Access denied for user''"
  let ?gdb = "\<lparr>DB_result = (Some 1, None)\<rparr>"
  have o1: "occurs_in ''connection refused'' (Error_of ?refused)"
    unfolding occurs_in_def Contains_iff[symmetric] Error_of.simps
    by (rule Contains_refused_example)
  have o2: "\<not> occurs_in ''connection refused'' (Error_of ?denied)"
    unfolding occurs_in_def Contains_iff[symmetric] Error_of.simps
    by (rule Contains_denied_example)
  have h1: "sql_Open_result refused_env = (Some 1, None)
      \<and> gorm_Open_result refused_env = (None, Some ?refused)"
    by (simp add: refused_env_def)
  have h2: "sql_Open_result denied_env = (Some 1, None)
      \<and> gorm_Open_result denied_env = (None, Some ?denied)"
    by (simp add: denied_env_def)
  have h3: "sql_Open_result connected_env = (Some 1, None)
      \<and> gorm_Open_result connected_env = (Some ?gdb, None)"
    by (simp add: connected_env_def)
  have a: "snd (connect example_externals (example_app None) refused_env None)
     = Returns (Some (Plain ?refused), None)"
    using C7_only_connection_refused_is_retryable
      [where env = refused_env and h = 1 and oe = None and db' = None
        and err' = "Some ?refused" and e = ?refused and X = example_externals
        and app = "example_app None" and db = None, THEN conjunct1, THEN mp, OF h1] o1
    by blast
  have b: "snd (connect example_externals (example_app None) denied_env None)
     = Returns (Some (retry_Stop (Some ?denied)), None)"
    using C7_only_connection_refused_is_retryable
      [where env = denied_env and h = 1 and oe = None and db' = None
        and err' = "Some ?denied" and X = example_externals
        and app = "example_app None" and db = None, THEN conjunct1, THEN mp, OF h2] o2
    by blast
  have c: "snd (connect example_externals (example_app None) connected_env None)
     = Returns (Some (retry_Stop None), Some ?gdb)"
    using C7_only_connection_refused_is_retryable
      [where env = connected_env and h = 1 and oe = None and db' = "Some ?gdb"
        and err' = None and X = example_externals
        and app = "example_app None" and db = None, THEN conjunct1, THEN mp, OF h3]
    by blast
  from a b c show ?thesis by (intro conjI)
qed

text \<open>
  With the specification's retry executor: the wrapper ends the retries at once, a plain
  error is followed by the delay and another attempt. So a bootstrap whose first attempt
  does not end in a connection-refused error makes that one attempt only.
\<close>

lemma retry_Do_stops_on_wrapper:
  assumes "operation 0 db = (tr, Returns (Some (retry_Stop e), db'))"
  shows "retry_Do (Suc n) delay operation db = (tr, Returns (e, db'))"
  using assms by (simp add: retry_Do_def)

lemma retry_Do_retries_plain:
  assumes "operation 0 db = (tr, Returns (Some (Plain e), db'))"
  shows "retry_Do (Suc (Suc n)) delay operation db
       = (tr @ [Sleep delay] @ fst (retry_from 1 (Suc n) delay operation db'),
          snd (retry_from 1 (Suc n) delay operation db'))"
  using assms by (simp add: retry_Do_def split: prod.splits)

lemma initializeDB_one_attempt_unless_refused:
  assumes "GetBool (Config app) (EvSuffixForDBRequired X)"
    and "sql_Open_result (envs 0) = (Some h, oe)"
    and "gorm_Open_result (envs 0) = (db', err')"
    and "\<not> (\<exists>e. err' = Some e \<and> occurs_in ''connection refused'' (Error_of e))"
  shows "initializeDB X retry_Do app envs
       = (fst (connect X app (envs 0) None)
          @ [Log (Msg InfoLevel (log app) [] ''Database connected!'')],
          Returns (err', app\<lparr>DB := db'\<rparr>))"
proof -
  have "snd (connect X app (envs 0) None) = Returns (Some (retry_Stop err'), db')"
    using connect_result[OF assms(2,3), of X app None] assms(4)
    unfolding occurs_in_def Contains_iff[symmetric] by (cases err') auto
  then have "connect X app (envs 0) None
      = (fst (connect X app (envs 0) None), Returns (Some (retry_Stop err'), db'))"
    by (metis prod.collapse)
  then have "retry_Do 3 (Second * 15) (\<lambda>i db. connect X app (envs i) db) None
      = (fst (connect X app (envs 0) None), Returns (err', db'))"
    using retry_Do_stops_on_wrapper
      [of "\<lambda>i db. connect X app (envs i) db" None "fst (connect X app (envs 0) None)" err' db' 2]
    by (simp add: numeral_3_eq_3)
  then show ?thesis using assms(1) by (simp add: initializeDB_def)
qed

text \<open>
  The bootstrap returns: with the specification's retry executor, when every attempt gets
  a pool handle (so that none panics), \<open>initializeDB\<close> returns, and the line
  \<open>Database connected!\<close> is the last thing it does.
\<close>

lemma retry_from_connect_returns:
  assumes "\<forall>i. fst (sql_Open_result (envs i)) \<noteq> None"
  shows "\<exists>tr err db'. retry_from i n delay (\<lambda>i db. connect X app (envs i) db) db
           = (tr, Returns (err, db'))"
proof (induction n arbitrary: i db)
  case 0
  show ?case by simp
next
  case (Suc n)
  obtain h oe where s: "sql_Open_result (envs i) = (Some h, oe)"
    using assms by (cases "sql_Open_result (envs i)") (metis fst_conv not_Some_eq)
  obtain db' err' where g: "gorm_Open_result (envs i) = (db', err')"
    by (cases "gorm_Open_result (envs i)")
  obtain tr where c: "connect X app (envs i) db
      = (tr, Returns (case err' of
                        None \<Rightarrow> Some (retry_Stop None)
                      | Some e \<Rightarrow>
                          if Contains (Error_of e) ''connection refused'' then Some (Plain e)
                          else Some (retry_Stop (Some e)),
                      db'))"
    using connect_result[OF s g, of X app db] by (metis prod.collapse)
  show ?case
  proof (cases "\<exists>e. err' = Some e \<and> Contains (Error_of e) ''connection refused''")
    case False
    then show ?thesis using c by (cases err') auto
  next
    case True
    then obtain e where e: "err' = Some e" "Contains (Error_of e) ''connection refused''" by blast
    show ?thesis
    proof (cases "n = 0")
      case True
      then show ?thesis using c e by simp
    next
      case False
      obtain tr' err db'' where
        "retry_from (Suc i) n delay (\<lambda>i db. connect X app (envs i) db) db' = (tr', Returns (err, db''))"
        using Suc.IH by blast
      then show ?thesis using c e False by simp
    qed
  qed
qed

lemma initializeDB_returns:
  assumes "GetBool (Config app) (EvSuffixForDBRequired X)"
    and "\<forall>i. fst (sql_Open_result (envs i)) \<noteq> None"
  shows "\<exists>tr err db. initializeDB X retry_Do app envs
           = (tr @ [Log (Msg InfoLevel (log app) [] ''Database connected!'')],
              Returns (err, app\<lparr>DB := db\<rparr>))"
proof -
  obtain tr err db where
    "retry_Do 3 (Second * 15) (\<lambda>i db. connect X app (envs i) db) None = (tr, Returns (err, db))"
    unfolding retry_Do_def using retry_from_connect_returns[OF assms(2)] by blast
  then have "initializeDB X retry_Do app envs
           = (tr @ [Log (Msg InfoLevel (log app) [] ''Database connected!'')],
              Returns (err, app\<lparr>DB := db\<rparr>))"
    using assms(1) by (simp add: initializeDB_def)
  then show ?thesis by blast
qed

text \<open>
  Claim C9. When the database is required and the retry executor, whichever it is, returns
  the error \<open>err\<close> (\<^verbatim>\<open>nil\<close> or not) with the variable \<open>db\<close> as the attempts left it,
  \<open>initializeDB\<close> stores \<open>db\<close> in the application's \<open>DB\<close> field, emits the informational
  line \<open>Database connected!\<close> after everything the attempts did, and returns \<open>err\<close>.
\<close>

theorem C9_database_connected_logged_whatever_the_error:
  "GetBool (Config app) (EvSuffixForDBRequired X)
   \<and> Do 3 (Second * 15) (\<lambda>i db. connect X app (envs i) db) None = (tr, Returns (err, db))
   \<longrightarrow> initializeDB X Do app envs
         = (tr @ [Log \<lparr>level = InfoLevel, lineFields = ctxFields (log app),
                       message = ''Database connected!''\<rparr>],
            Returns (err, app\<lparr>DB := db\<rparr>))"
  by (simp add: initializeDB_def Msg_def)

text \<open>
  The database denies access: the bootstrap returns that error, the \<open>DB\<close> field is
  \<^verbatim>\<open>nil\<close>, and the line is logged.
\<close>

theorem C9_database_connected_logged_whatever_the_error_witness:
  "\<exists>tr. retry_Do 3 (Second * 15)
           (\<lambda>i db. connect example_externals (example_app None) denied_env db) None
         = (tr, Returns (Some (ErrorString ''Error 1045: Access denied for user''), None))
      \<and> initializeDB example_externals retry_Do (example_app None) (\<lambda>i. denied_env)
         = (tr @ [Log \<lparr>level = InfoLevel, lineFields = [], message = ''Database connected!''\<rparr>],
            Returns (Some (ErrorString ''Error 1045: Access denied for user''),
                     (example_app None)\<lparr>DB := None\<rparr>))"
proof -
  let ?denied = "ErrorString ''Error 1045: Access denied for user''"
  let ?op = "\<lambda>(i::nat) db. connect example_externals (example_app None) denied_env db"
  have "snd (?op 0 None) = Returns (Some (retry_Stop (Some ?denied)), None)"
    using connect_result[of denied_env 1 None None "Some ?denied" example_externals
        "example_app None" None] Contains_denied_example
    by (simp add: denied_env_def)
  then have "?op 0 None = (fst (?op 0 None), Returns (Some (retry_Stop (Some ?denied)), None))"
    by (metis prod.collapse)
  then have r: "retry_Do 3 (Second * 15) ?op None = (fst (?op 0 None), Returns (Some ?denied, None))"
    using retry_Do_stops_on_wrapper[of ?op None "fst (?op 0 None)" "Some ?denied" None 2]
    by (simp add: numeral_3_eq_3)
  have g: "GetBool (Config (example_app None)) (EvSuffixForDBRequired example_externals)"
    "ctxFields (log (example_app None)) = []"
    by (simp_all add: example_app_def example_config_def example_externals_def)
  from C9_database_connected_logged_whatever_the_error
    [where app = "example_app None" and X = example_externals and Do = retry_Do
      and envs = "\<lambda>i. denied_env" and tr = "fst (?op 0 None)" and err = "Some ?denied"
      and db = None] r g
  show ?thesis by auto
qed

text \<open>The line the attempt logs for an error of \<^verbatim>\<open>sql.Open\<close>.\<close>

definition pool_error_line :: "App \<Rightarrow> go_error \<Rightarrow> LogLine" where
  "pool_error_line app e =
     \<lparr>level = ErrorLevel, lineFields = ctxFields (log app) @ [FErr (Error_of e)],
      message = ''Error creating connection pool ['' @ Error_of e @ '']. Trying again...''\<rparr>"

lemma connect_after_pool_error:
  assumes "sql_Open_result env = (Some h, Some e)"
  shows "connect X app env db
       = (SqlOpen ''mysql'' (GetConnectionString app) # Log (pool_error_line app e)
          # tl (fst (connect X app (env\<lparr>sql_Open_result := (Some h, None)\<rparr>) db)),
          snd (connect X app (env\<lparr>sql_Open_result := (Some h, None)\<rparr>) db))"
  using assms
  by (simp add: connect_def Let_def pool_error_line_def Msg_def split: option.splits prod.splits)

lemma connect_trace_without_pool_error:
  assumes "sql_Open_result env = (Some h, None)"
  shows "take 4 (fst (connect X app env db))
       = [SqlOpen ''mysql'' (GetConnectionString app),
          SetConnMaxLifetime h
            (word_of_int (GetInt (Config app) (EvSuffixForDBConnectionLifetime X)) * Minute),
          SetMaxIdleConns h (GetInt (Config app) (EvSuffixForDBMaxIdleConnections X)),
          GormOpen h (dbconf_of X app)]"
  using assms
  by (simp add: connect_def Let_def split: option.splits prod.splits)

text \<open>
  Claim C10. When \<^verbatim>\<open>sql.Open\<close> returns an error, the attempt logs it and goes on. With a
  handle beside the error, the next actions are the two settings on that handle and
  \<^verbatim>\<open>gorm.Open\<close>, the rest of the attempt and its result are those of the attempt without
  the error, and the attempt returns. With no handle (\<^verbatim>\<open>nil\<close>) beside the error, the
  attempt logs the error and then panics at the first setting, which dereferences the
  handle.
\<close>

theorem C10_pool_open_error_is_only_logged:
  "(sql_Open_result env = (Some h, Some e) \<longrightarrow>
      take 5 (fst (connect X app env db))
        = [SqlOpen ''mysql'' (GetConnectionString app),
           Log (pool_error_line app e),
           SetConnMaxLifetime h
             (word_of_int (GetInt (Config app) (EvSuffixForDBConnectionLifetime X)) * Minute),
           SetMaxIdleConns h (GetInt (Config app) (EvSuffixForDBMaxIdleConnections X)),
           GormOpen h (dbconf_of X app)]
    \<and> fst (connect X app env db)
        = SqlOpen ''mysql'' (GetConnectionString app) # Log (pool_error_line app e)
          # tl (fst (connect X app (env\<lparr>sql_Open_result := (Some h, None)\<rparr>) db))
    \<and> snd (connect X app env db)
        = snd (connect X app (env\<lparr>sql_Open_result := (Some h, None)\<rparr>) db)
    \<and> snd (connect X app env db) \<noteq> Panics \<and> snd (connect X app env db) \<noteq> Exits)
   \<and> (sql_Open_result env = (None, Some e) \<longrightarrow>
      connect X app env db
        = ([SqlOpen ''mysql'' (GetConnectionString app), Log (pool_error_line app e)], Panics))"
proof (intro conjI impI)
  assume a: "sql_Open_result env = (Some h, Some e)"
  let ?env = "env\<lparr>sql_Open_result := (Some h, None)\<rparr>"
  have ok: "sql_Open_result ?env = (Some h, None)" by simp
  from connect_after_pool_error[OF a, of X app db]
  show t: "fst (connect X app env db)
        = SqlOpen ''mysql'' (GetConnectionString app) # Log (pool_error_line app e)
          # tl (fst (connect X app ?env db))"
    and s: "snd (connect X app env db) = snd (connect X app ?env db)"
    by simp_all
  from connect_trace_without_pool_error[OF ok, of X app db]
  obtain rest where "fst (connect X app ?env db)
       = [SqlOpen ''mysql'' (GetConnectionString app),
          SetConnMaxLifetime h
            (word_of_int (GetInt (Config app) (EvSuffixForDBConnectionLifetime X)) * Minute),
          SetMaxIdleConns h (GetInt (Config app) (EvSuffixForDBMaxIdleConnections X)),
          GormOpen h (dbconf_of X app)] @ rest"
    by (metis append_take_drop_id)
  then show "take 5 (fst (connect X app env db))
        = [SqlOpen ''mysql'' (GetConnectionString app),
           Log (pool_error_line app e),
           SetConnMaxLifetime h
             (word_of_int (GetInt (Config app) (EvSuffixForDBConnectionLifetime X)) * Minute),
           SetMaxIdleConns h (GetInt (Config app) (EvSuffixForDBMaxIdleConnections X)),
           GormOpen h (dbconf_of X app)]"
    unfolding t by simp
  obtain db' err' where g: "gorm_Open_result env = (db', err')"
    by (cases "gorm_Open_result env")
  from connect_result[OF a g, of X app db]
  show "snd (connect X app env db) \<noteq> Panics" "snd (connect X app env db) \<noteq> Exits"
    by simp_all
next
  assume "sql_Open_result env = (None, Some e)"
  then show "connect X app env db
        = ([SqlOpen ''mysql'' (GetConnectionString app), Log (pool_error_line app e)], Panics)"
    by (simp add: connect_def Let_def pool_error_line_def Msg_def)
qed

theorem C10_pool_open_error_is_only_logged_witness:
  "take 5 (fst (connect example_externals (example_app None)
       (connected_env\<lparr>sql_Open_result := (Some 1, Some (ErrorString ''bad dsn''))\<rparr>) None))
     = [SqlOpen ''mysql'' '':@tcp(:)/?multiStatements=true&charset=utf8&parseTime=True&loc=Local'',
        Log \<lparr>level = ErrorLevel, lineFields = [FErr ''bad dsn''],
             message = ''Error creating connection pool [bad dsn]. Trying again...''\<rparr>,
        SetConnMaxLifetime 1 300000000000,
        SetMaxIdleConns 1 5,
        GormOpen 1 \<lparr>PrepareStmt = True, LogMode = glogger_Error, SingularTable = False\<rparr>]
   \<and> snd (connect example_externals (example_app None)
       (connected_env\<lparr>sql_Open_result := (Some 1, Some (ErrorString ''bad dsn''))\<rparr>) None)
     = Returns (Some (retry_Stop None), Some \<lparr>DB_result = (Some 1, None)\<rparr>)
   \<and> connect example_externals (example_app None)
       (connected_env\<lparr>sql_Open_result := (None, Some (ErrorString ''bad dsn''))\<rparr>) None
     = ([SqlOpen ''mysql'' '':@tcp(:)/?multiStatements=true&charset=utf8&parseTime=True&loc=Local'',
         Log \<lparr>level = ErrorLevel, lineFields = [FErr ''bad dsn''],
              message = ''Error creating connection pool [bad dsn]. Trying again...''\<rparr>],
        Panics)"
proof -
  let ?e = "ErrorString ''bad dsn''"
  let ?env1 = "connected_env\<lparr>sql_Open_result := (Some 1, Some ?e)\<rparr>"
  let ?env2 = "connected_env\<lparr>sql_Open_result := (None, Some ?e)\<rparr>"
  have cs: "GetConnectionString (example_app None)
      = '':@tcp(:)/?multiStatements=true&charset=utf8&parseTime=True&loc=Local''"
    by (simp add: GetConnectionString_def example_app_def example_config_def)
  have line: "pool_error_line (example_app None) ?e
      = \<lparr>level = ErrorLevel, lineFields = [FErr ''bad dsn''],
         message = ''Error creating connection pool [bad dsn]. Trying again...''\<rparr>"
    by (simp add: pool_error_line_def example_app_def)
  have conf: "dbconf_of example_externals (example_app None)
      = \<lparr>PrepareStmt = True, LogMode = glogger_Error, SingularTable = False\<rparr>"
    by (simp add: dbconf_of_def example_externals_def example_app_def example_config_def)
  have life: "word_of_int (GetInt (Config (example_app None))
        (EvSuffixForDBConnectionLifetime example_externals)) * Minute = (300000000000 :: Duration)"
    by (simp add: example_app_def example_config_def Minute_def Second_def)
  have idle: "GetInt (Config (example_app None))
        (EvSuffixForDBMaxIdleConnections example_externals) = 5"
    by (simp add: example_app_def example_config_def)
  have same: "?env1\<lparr>sql_Open_result := (Some 1, None)\<rparr> = connected_env"
    by (simp add: connected_env_def)
  have h1: "sql_Open_result ?env1 = (Some 1, Some ?e)" by simp
  have h2: "sql_Open_result ?env2 = (None, Some ?e)" by simp
  note T1 = C10_pool_open_error_is_only_logged
    [where env = ?env1 and h = 1 and e = ?e and X = example_externals
      and app = "example_app None" and db = None, THEN conjunct1, THEN mp, OF h1]
  note T2 = C10_pool_open_error_is_only_logged
    [where env = ?env2 and e = ?e and X = example_externals
      and app = "example_app None" and db = None, THEN conjunct2, THEN mp, OF h2]
  have r: "snd (connect example_externals (example_app None) connected_env None)
      = Returns (Some (retry_Stop None), Some \<lparr>DB_result = (Some 1, None)\<rparr>)"
    using connect_result[of connected_env 1 None "Some \<lparr>DB_result = (Some 1, None)\<rparr>" None
        example_externals "example_app None" None]
    by (simp add: connected_env_def)
  have a: "take 5 (fst (connect example_externals (example_app None) ?env1 None))
     = [SqlOpen ''mysql'' '':@tcp(:)/?multiStatements=true&charset=utf8&parseTime=True&loc=Local'',
        Log \<lparr>level = ErrorLevel, lineFields = [FErr ''bad dsn''],
             message = ''Error creating connection pool [bad dsn]. Trying again...''\<rparr>,
        SetConnMaxLifetime 1 300000000000,
        SetMaxIdleConns 1 5,
        GormOpen 1 \<lparr>PrepareStmt = True, LogMode = glogger_Error, SingularTable = False\<rparr>]"
    using T1[THEN conjunct1] unfolding cs line conf life idle .
  have b: "snd (connect example_externals (example_app None) ?env1 None)
     = Returns (Some (retry_Stop None), Some \<lparr>DB_result = (Some 1, None)\<rparr>)"
    using T1[THEN conjunct2, THEN conjunct2, THEN conjunct1] unfolding same r .
  have c: "connect example_externals (example_app None) ?env2 None
     = ([SqlOpen ''mysql'' '':@tcp(:)/?multiStatements=true&charset=utf8&parseTime=True&loc=Local'',
         Log \<lparr>level = ErrorLevel, lineFields = [FErr ''bad dsn''],
              message = ''Error creating connection pool [bad dsn]. Trying again...''\<rparr>],
        Panics)"
    using T2 unfolding cs line .
  from a b c show ?thesis by (intro conjI)
qed

subsection \<open>The correlation id of a request\<close>

text \<open>
  The fields of the request-scoped logger: those of the application's logger, then the
  service, the module, the time stamp, the caller, the correlation id, the method and the
  target.
\<close>

definition ingress_fields :: "App \<Rightarrow> Request \<Rightarrow> string \<Rightarrow> Field list" where
  "ingress_fields app r cid =
     ctxFields (log app) @
     [FStr ''service'' (Name app), FStr ''module'' ''Ingress'', FTimestamp,
      FStr ''caller'' (Header_Get (Header r) ''X-Client''),
      FStr ''correlationId'' cid,
      FStr ''method'' (Method r),
      FStr ''requestURI'' (RequestURI r)]"

lemma Header_Get_Set_same: "Header_Get (Header_Set h k v) k = v"
  by (simp add: Header_Get_def Header_Set_def)

lemma Header_Get_Set_other: "k' \<noteq> k \<Longrightarrow> Header_Get (Header_Set h k v) k' = Header_Get h k'"
  by (simp add: Header_Get_def Header_Set_def)

lemma NewExecutionContext_keeps_UUID_String:
  "CorrelationID (NewExecutionContext newV4' token (UUID_String u) action lg) = UUID_String u"
  by (simp add: NewExecutionContext_def Let_def TrimSpace_UUID_String length_UUID_String)

lemma middleware_logger_fields:
  "ctxFields (addStrs (ctxTimestamp (App_Logger app ''Ingress''))
      [(''caller'', caller), (''correlationId'', cid), (''method'', m), (''requestURI'', uri)])
   = ctxFields (log app) @
     [FStr ''service'' (Name app), FStr ''module'' ''Ingress'', FTimestamp,
      FStr ''caller'' caller, FStr ''correlationId'' cid, FStr ''method'' m,
      FStr ''requestURI'' uri]"
  by (simp add: addStrs_def ctxStr_def ctxTimestamp_def App_Logger_def)

lemma loggingMiddleware_begin:
  assumes "Header_Get (Header r) ''X-Correlation-ID'' = []"
  shows "take 2 (fst (loggingMiddleware app next newV4 elapsed r))
       = [Log \<lparr>level = InfoLevel,
               lineFields = ingress_fields app r (UUID_String newV4),
               message = ''Begin''\<rparr>,
          ServeHTTP (r\<lparr>Header := Header_Set (Header r) ''X-Correlation-ID'' (UUID_String newV4)\<rparr>)]"
  using assms
  by (simp add: loggingMiddleware_def Let_def Msg_def middleware_logger_fields ingress_fields_def
      Header_Get_Set_same Header_Get_Set_other split: prod.splits outcome.splits)

lemma loggingMiddleware_returns:
  assumes "Header_Get (Header r) ''X-Correlation-ID'' = []"
    and "next (r\<lparr>Header := Header_Set (Header r) ''X-Correlation-ID'' (UUID_String newV4)\<rparr>)
         = (codes, Returns ())"
  shows "loggingMiddleware app next newV4 elapsed r
       = ([Log \<lparr>level = InfoLevel,
                lineFields = ingress_fields app r (UUID_String newV4),
                message = ''Begin''\<rparr>,
           ServeHTTP (r\<lparr>Header := Header_Set (Header r) ''X-Correlation-ID'' (UUID_String newV4)\<rparr>)]
          @ map WriteHeader codes
          @ [Log \<lparr>level = (if (if codes = [] then 0 else last codes) \<ge> 500
                              then ErrorLevel else InfoLevel),
                  lineFields = ingress_fields app r (UUID_String newV4)
                    @ [FInt ''status'' (if codes = [] then 0 else last codes),
                       FDur ''responseTime'' elapsed],
                  message = ''End.''\<rparr>],
          Returns ())"
  using assms
  by (simp add: loggingMiddleware_def Let_def Msg_def middleware_logger_fields ingress_fields_def
      Header_Get_Set_same Header_Get_Set_other)

text \<open>
  Claim C8. For a request whose \<^verbatim>\<open>X-Correlation-ID\<close> header is empty, the middleware
  writes the string of a fresh UUID on the request. The first two things it then does
  are to log \<open>Begin\<close> with that string as correlation id and to call the handler with the
  request that carries it. What the handler reads from the request with
  \<open>GetCorrelationIDFromRequest\<close> is that string; it is not empty; and a root context
  that the handler builds from it with \<open>NewExecutionContext\<close> has it as correlation id,
  whatever UUID that call would draw. When the handler returns, the \<open>End.\<close> line follows
  with the same correlation id.
\<close>

theorem C8_generated_correlation_id_everywhere:
  "Header_Get (Header r) ''X-Correlation-ID'' = [] \<longrightarrow>
     take 2 (fst (loggingMiddleware app next newV4 elapsed r))
       = [Log \<lparr>level = InfoLevel,
               lineFields = ingress_fields app r (UUID_String newV4),
               message = ''Begin''\<rparr>,
          ServeHTTP (r\<lparr>Header := Header_Set (Header r) ''X-Correlation-ID'' (UUID_String newV4)\<rparr>)]
   \<and> GetCorrelationIDFromRequest
        (r\<lparr>Header := Header_Set (Header r) ''X-Correlation-ID'' (UUID_String newV4)\<rparr>)
       = UUID_String newV4
   \<and> UUID_String newV4 \<noteq> []
   \<and> CorrelationID
        (NewExecutionContext newV4' token
           (GetCorrelationIDFromRequest
              (r\<lparr>Header := Header_Set (Header r) ''X-Correlation-ID'' (UUID_String newV4)\<rparr>))
           action lg)
       = UUID_String newV4
   \<and> (next (r\<lparr>Header := Header_Set (Header r) ''X-Correlation-ID'' (UUID_String newV4)\<rparr>)
         = (codes, Returns ()) \<longrightarrow>
       loggingMiddleware app next newV4 elapsed r
       = ([Log \<lparr>level = InfoLevel,
                lineFields = ingress_fields app r (UUID_String newV4),
                message = ''Begin''\<rparr>,
           ServeHTTP (r\<lparr>Header := Header_Set (Header r) ''X-Correlation-ID'' (UUID_String newV4)\<rparr>)]
          @ map WriteHeader codes
          @ [Log \<lparr>level = (if (if codes = [] then 0 else last codes) \<ge> 500
                              then ErrorLevel else InfoLevel),
                  lineFields = ingress_fields app r (UUID_String newV4)
                    @ [FInt ''status'' (if codes = [] then 0 else last codes),
                       FDur ''responseTime'' elapsed],
                  message = ''End.''\<rparr>],
          Returns ()))"
proof (intro impI conjI)
  assume e: "Header_Get (Header r) ''X-Correlation-ID'' = []"
  let ?r1 = "r\<lparr>Header := Header_Set (Header r) ''X-Correlation-ID'' (UUID_String newV4)\<rparr>"
  show "take 2 (fst (loggingMiddleware app next newV4 elapsed r))
       = [Log \<lparr>level = InfoLevel, lineFields = ingress_fields app r (UUID_String newV4),
               message = ''Begin''\<rparr>, ServeHTTP ?r1]"
    by (rule loggingMiddleware_begin[OF e])
  show g: "GetCorrelationIDFromRequest ?r1 = UUID_String newV4"
    by (simp add: GetCorrelationIDFromRequest_def Header_Get_Set_same)
  show "UUID_String newV4 \<noteq> []"
    using length_UUID_String[of newV4] by auto
  show "CorrelationID (NewExecutionContext newV4' token (GetCorrelationIDFromRequest ?r1) action lg)
       = UUID_String newV4"
    unfolding g by (rule NewExecutionContext_keeps_UUID_String)
  show "loggingMiddleware app next newV4 elapsed r
       = ([Log \<lparr>level = InfoLevel, lineFields = ingress_fields app r (UUID_String newV4),
                message = ''Begin''\<rparr>, ServeHTTP ?r1]
          @ map WriteHeader codes
          @ [Log \<lparr>level = (if (if codes = [] then 0 else last codes) \<ge> 500
                              then ErrorLevel else InfoLevel),
                  lineFields = ingress_fields app r (UUID_String newV4)
                    @ [FInt ''status'' (if codes = [] then 0 else last codes),
                       FDur ''responseTime'' elapsed],
                  message = ''End.''\<rparr>],
          Returns ())"
    if "next ?r1 = (codes, Returns ())"
    using loggingMiddleware_returns[of r "next" newV4 codes app elapsed] e that by simp
qed

text \<open>A request without the header, and a handler that answers 200.\<close>

definition example_request :: Request where
  "example_request = \<lparr>Header = (\<lambda>k. None), Method = ''GET'', RequestURI = ''/api/tenants/7''\<rparr>"

theorem C8_generated_correlation_id_everywhere_witness:
  "loggingMiddleware (example_app None) (\<lambda>r. ([200], Returns ()))
       0x6ba7b8109dad11d180b400c04fd430c8 1500 example_request
     = ([Log \<lparr>level = InfoLevel,
              lineFields =
                [FStr ''service'' ''svc'', FStr ''module'' ''Ingress'', FTimestamp,
                 FStr ''caller'' [],
                 FStr ''correlationId'' ''6ba7b810-9dad-11d1-80b4-00c04fd430c8'',
                 FStr ''method'' ''GET'', FStr ''requestURI'' ''/api/tenants/7''],
              message = ''Begin''\<rparr>,
         ServeHTTP (example_request\<lparr>Header := Header_Set (Header example_request)
                      ''X-Correlation-ID'' ''6ba7b810-9dad-11d1-80b4-00c04fd430c8''\<rparr>),
         WriteHeader 200,
         Log \<lparr>level = InfoLevel,
              lineFields =
                [FStr ''service'' ''svc'', FStr ''module'' ''Ingress'', FTimestamp,
                 FStr ''caller'' [],
                 FStr ''correlationId'' ''6ba7b810-9dad-11d1-80b4-00c04fd430c8'',
                 FStr ''method'' ''GET'', FStr ''requestURI'' ''/api/tenants/7'',
                 FInt ''status'' 200, FDur ''responseTime'' 1500],
              message = ''End.''\<rparr>],
        Returns ())
   \<and> CorrelationID
       (NewExecutionContext 9 None
          (GetCorrelationIDFromRequest
             (example_request\<lparr>Header := Header_Set (Header example_request)
                ''X-Correlation-ID'' ''6ba7b810-9dad-11d1-80b4-00c04fd430c8''\<rparr>))
          ''tenantsettings.get'' \<lparr>ctxFields = []\<rparr>)
     = ''6ba7b810-9dad-11d1-80b4-00c04fd430c8''"
proof -
  let ?u = "0x6ba7b8109dad11d180b400c04fd430c8 :: UUID"
  let ?next = "\<lambda>r :: Request. ([200 :: int], Returns ())"
  have e: "Header_Get (Header example_request) ''X-Correlation-ID'' = []"
    by (simp add: example_request_def Header_Get_def)
  have f: "ingress_fields (example_app None) example_request ''6ba7b810-9dad-11d1-80b4-00c04fd430c8''
      = [FStr ''service'' ''svc'', FStr ''module'' ''Ingress'', FTimestamp,
         FStr ''caller'' [],
         FStr ''correlationId'' ''6ba7b810-9dad-11d1-80b4-00c04fd430c8'',
         FStr ''method'' ''GET'', FStr ''requestURI'' ''/api/tenants/7'']"
    by (simp add: ingress_fields_def example_app_def example_request_def Header_Get_def)
  note T = C8_generated_correlation_id_everywhere
    [where r = example_request and app = "example_app None" and ?next = ?next
      and ?newV4.0 = ?u and elapsed = 1500 and codes = "[200]" and newV4' = 9 and token = None
      and action = "''tenantsettings.get''" and lg = "\<lparr>ctxFields = []\<rparr>",
      THEN mp, OF e, unfolded UUID_String_example f]
  have a: "loggingMiddleware (example_app None) ?next ?u 1500 example_request
     = ([Log \<lparr>level = InfoLevel,
              lineFields =
                [FStr ''service'' ''svc'', FStr ''module'' ''Ingress'', FTimestamp,
                 FStr ''caller'' [],
                 FStr ''correlationId'' ''6ba7b810-9dad-11d1-80b4-00c04fd430c8'',
                 FStr ''method'' ''GET'', FStr ''requestURI'' ''/api/tenants/7''],
              message = ''Begin''\<rparr>,
         ServeHTTP (example_request\<lparr>Header := Header_Set (Header example_request)
                      ''X-Correlation-ID'' ''6ba7b810-9dad-11d1-80b4-00c04fd430c8''\<rparr>),
         WriteHeader 200,
         Log \<lparr>level = InfoLevel,
              lineFields =
                [FStr ''service'' ''svc'', FStr ''module'' ''Ingress'', FTimestamp,
                 FStr ''caller'' [],
                 FStr ''correlationId'' ''6ba7b810-9dad-11d1-80b4-00c04fd430c8'',
                 FStr ''method'' ''GET'', FStr ''requestURI'' ''/api/tenants/7'',
                 FInt ''status'' 200, FDur ''responseTime'' 1500],
              message = ''End.''\<rparr>],
        Returns ())"
    using T by simp
  have b: "CorrelationID
       (NewExecutionContext 9 None
          (GetCorrelationIDFromRequest
             (example_request\<lparr>Header := Header_Set (Header example_request)
                ''X-Correlation-ID'' ''6ba7b810-9dad-11d1-80b4-00c04fd430c8''\<rparr>))
          ''tenantsettings.get'' \<lparr>ctxFields = []\<rparr>)
     = ''6ba7b810-9dad-11d1-80b4-00c04fd430c8''"
    using T by blast
  from a b show ?thesis by (intro conjI)
qed

end
